theory Spec2Isabelle
  imports Complex_Main "HOL-Library.Multiset" "HOL-Library.Sublist"
begin

section \<open>Data model of the billing service\<close>

text \<open>
  The billing service (class \<open>BillingService\<close>) keeps three pieces of mutable state: the
  ledger \<open>guestOrders\<close> of delivered but unpaid items, the list \<open>bills\<close> of open bills
  and the cached \<open>menu\<close>. Its methods are embedded as functions that take the state and
  return the new one. A JavaScript \<open>number\<close> that holds an identifier is an \<open>int\<close>; a
  price or an amount is a \<open>real\<close> (rounding of binary floating point is not modelled).
  Arrays are lists and are passed by value: the class copies every array it stores in a
  bill (\<open>[...order.food]\<close>), so a bill never shares an array with the ledger.

  Several interfaces of the source share field names (\<open>guest\<close>, \<open>orders\<close>, \<open>bill\<close>,
  \<open>totalSum\<close>, \<open>food\<close>, \<open>drinks\<close>). A field keeps the source's name in the first
  record that has it (\<open>order\<close>, \<open>food\<close>, \<open>drinks\<close>, \<open>guest\<close>, \<open>orders\<close>, \<open>bill\<close>,
  \<open>totalSum\<close>) and carries the prefix of its record elsewhere; \<open>id\<close> of a menu item is
  \<open>item_id\<close>.
\<close>

text \<open>
  Modelled from the spec: the interfaces of \<open>./types/types\<close> are not among the source
  files. The spec gives \<open>MenuItem = {id, price}\<close>, \<open>Menu = {food, drinks}\<close>,
  \<open>OrderLine = {order, food, drinks}\<close>, \<open>LedgerEntry = {guest, orders}\<close>,
  \<open>Bill = {bill, guest, orders, totalSum}\<close>,
  \<open>GuestBill = {bill, orderedFood, orderedDrinks, totalSum}\<close> and
  \<open>PaidBill = {bill, paidOrders: {order, paidFood, paidDrinks}, totalSum}\<close>.
\<close>

record MenuItem =
  item_id :: int
  price :: real

record Menu =
  menu_food :: "MenuItem list"
  menu_drinks :: "MenuItem list"

record OrderLine =
  order :: int
  food :: "int list"
  drinks :: "int list"

record GuestOrders =
  guest :: int
  orders :: "OrderLine list"

record Bill =
  bill :: int
  bill_guest :: int
  bill_orders :: "OrderLine list"
  totalSum :: real

record GuestBill =
  gb_bill :: int
  orderedDrinks :: "int list"
  orderedFood :: "int list"
  gb_totalSum :: real

record PaidOrder =
  po_order :: int
  paidDrinks :: "int list"
  paidFood :: "int list"

record PaidBill =
  pb_bill :: int
  paidOrders :: "PaidOrder list"
  pb_totalSum :: real

record ItemRegistration =
  ir_guest :: int
  ir_order :: int
  ir_food :: "int list"
  ir_drinks :: "int list"

datatype PAYMENT_METHOD = Cash | DebitCard | CreditCard

text \<open>
  The only failure the source can produce is the runtime's \<open>TypeError\<close>, thrown when a
  property of \<open>undefined\<close> is read. The other constructors are the failures the
  specification names; no function below returns them.
\<close>

datatype error = TypeError | BillNotFound | GuestNotFound | UnknownMenuItem | MenuNotReady

record BillingService =
  deliveryIds :: "int list"
  bills :: "Bill list"
  guestOrders :: "GuestOrders list"
  menu :: "Menu option"
  billIdCounter :: int
  retryCounter :: int
  fibonacciSeq :: "int list"

section \<open>Array helpers\<close>

text \<open>
  \<open>Array.prototype.findIndex\<close>: the index of the first element that satisfies the
  predicate; \<open>None\<close> stands for the result \<open>-1\<close>. \<open>Array.prototype.find\<close> is
  \<^const>\<open>find\<close> of the list library, with \<open>None\<close> for \<open>undefined\<close>.
\<close>

fun findIndex :: "('a \<Rightarrow> bool) \<Rightarrow> 'a list \<Rightarrow> nat option" where
  "findIndex P [] = None"
| "findIndex P (x # xs) = (if P x then Some 0 else map_option Suc (findIndex P xs))"

text \<open>\<open>xs.splice(i, 1)\<close>: the array without its element at index \<open>i\<close>.\<close>

definition splice1 :: "nat \<Rightarrow> 'a list \<Rightarrow> 'a list" where
  "splice1 i xs = take i xs @ drop (Suc i) xs"

text \<open>\<open>xs[i]\<close> for a number \<open>i\<close>: \<open>undefined\<close> outside the array.\<close>

definition js_index :: "'a list \<Rightarrow> int \<Rightarrow> 'a option" where
  "js_index xs i = (if 0 \<le> i \<and> i < int (length xs) then Some (xs ! nat i) else None)"

section \<open>The menu retry loop\<close>

definition MAX_RETRY_COUNT :: int where
  "MAX_RETRY_COUNT = 5"

text \<open>
  Modelled from the spec: \<open>getFibonacciSequence\<close> of \<open>./utils\<close> is not among the source
  files. The spec describes its result for length 5 as the sequence 1, 1, 2, 3, 5.
\<close>

fun fibFrom :: "int \<Rightarrow> int \<Rightarrow> nat \<Rightarrow> int list" where
  "fibFrom a b 0 = []"
| "fibFrom a b (Suc n) = a # fibFrom b (a + b) n"

definition getFibonacciSequence :: "int \<Rightarrow> int list" where
  "getFibonacciSequence n = fibFrom 1 1 (nat n)"

text \<open>The state of a freshly constructed service, before the first fetch of the menu.\<close>

definition BillingService_new :: BillingService where
  "BillingService_new =
     \<lparr> deliveryIds = [], bills = [], guestOrders = [], menu = None, billIdCounter = 1,
       retryCounter = MAX_RETRY_COUNT,
       fibonacciSeq = getFibonacciSequence MAX_RETRY_COUNT \<rparr>"

text \<open>
  \<open>handleGetMenuErrors\<close> up to its final call of \<open>getMenu\<close>: the delay it awaits, in
  milliseconds, and the state after the decrement of \<open>retryCounter\<close>. The delay is
  \<open>None\<close> when \<open>fibonacciSeq\<close> has no element at the index (\<open>undefined * 1000\<close> is
  \<open>NaN\<close>).
\<close>

definition handleGetMenuErrors :: "BillingService \<Rightarrow> int option \<times> BillingService" where
  "handleGetMenuErrors s =
     (let (retryIn, s1) =
        (if retryCounter s > 0
         then (let fibNum = js_index (fibonacciSeq s) (MAX_RETRY_COUNT - retryCounter s)
               in (map_option (\<lambda>f. f * 1000) fibNum, s))
         else (Some (60 * 1000), s\<lparr>retryCounter := MAX_RETRY_COUNT\<rparr>))
      in (retryIn, s1\<lparr>retryCounter := retryCounter s1 - 1\<rparr>))"

text \<open>
  \<open>getMenu\<close> against a finite record of what the successive fetches answer: \<open>Some m\<close>
  for a response with body \<open>m\<close>, \<open>None\<close> for a network error or a timeout. The result
  is the list of delays awaited and the state reached; when the record is used up the
  next fetch is still pending.
\<close>

fun getMenu :: "Menu option list \<Rightarrow> BillingService \<Rightarrow> int option list \<times> BillingService" where
  "getMenu [] s = ([], s)"
| "getMenu (Some m # rs) s = ([], s\<lparr>menu := Some m\<rparr>)"
| "getMenu (None # rs) s =
     (let (retryIn, s1) = handleGetMenuErrors s;
          (waits, s2) = getMenu rs s1
      in (retryIn # waits, s2))"

section \<open>Bills\<close>

text \<open>
  The body of the loop of \<open>addFoodOrderToBill\<close>: the first line of the bill with the
  order id of \<open>ord\<close> gets copies of its food and drinks, or a new line is pushed.
\<close>

definition addOrder :: "OrderLine list \<Rightarrow> OrderLine \<Rightarrow> OrderLine list" where
  "addOrder billOrders ord =
     (case findIndex (\<lambda>billOrder. order billOrder = order ord) billOrders of
        Some i \<Rightarrow> billOrders[i := (billOrders ! i)\<lparr>food := food ord, drinks := drinks ord\<rparr>]
      | None \<Rightarrow> billOrders @ [\<lparr>order = order ord, food = food ord, drinks = drinks ord\<rparr>])"

definition addFoodOrderToBill :: "GuestOrders \<Rightarrow> Bill \<Rightarrow> Bill" where
  "addFoodOrderToBill guestDelivery newBill =
     newBill\<lparr>bill_orders := foldl addOrder (bill_orders newBill) (orders guestDelivery)\<rparr>"

text \<open>
  One inner loop of \<open>calculateTotalSum\<close>: every id is looked up in a list of the menu
  and its price is added to the running sum. Reading \<open>this.menu.drinks\<close> while the menu
  is \<open>undefined\<close>, and reading \<open>.price\<close> of a failed lookup, throw.
\<close>

fun addPrices :: "Menu option \<Rightarrow> (Menu \<Rightarrow> MenuItem list) \<Rightarrow> int list \<Rightarrow> real \<Rightarrow> error + real" where
  "addPrices m sel [] acc = Inr acc"
| "addPrices m sel (i # is) acc =
     (case m of
        None \<Rightarrow> Inl TypeError
      | Some mn \<Rightarrow>
          (case find (\<lambda>item. item_id item = i) (sel mn) of
             None \<Rightarrow> Inl TypeError
           | Some item \<Rightarrow> addPrices m sel is (acc + price item)))"

fun sumOrders :: "Menu option \<Rightarrow> OrderLine list \<Rightarrow> real \<Rightarrow> error + real" where
  "sumOrders m [] acc = Inr acc"
| "sumOrders m (ord # ords) acc =
     (case addPrices m menu_drinks (drinks ord) acc of
        Inl e \<Rightarrow> Inl e
      | Inr acc1 \<Rightarrow>
          (case addPrices m menu_food (food ord) acc1 of
             Inl e \<Rightarrow> Inl e
           | Inr acc2 \<Rightarrow> sumOrders m ords acc2))"

definition calculateTotalSum :: "BillingService \<Rightarrow> Bill \<Rightarrow> error + Bill" where
  "calculateTotalSum s newBill =
     (case sumOrders (menu s) (bill_orders newBill) (totalSum newBill) of
        Inl e \<Rightarrow> Inl e
      | Inr t \<Rightarrow> Inr (newBill\<lparr>totalSum := t\<rparr>))"

definition generateBill :: "BillingService \<Rightarrow> GuestOrders \<Rightarrow> (error + GuestBill) \<times> BillingService" where
  "generateBill s guestDelivery =
     (let billIndex = findIndex (\<lambda>b. bill_guest b = guest guestDelivery) (bills s);
          (newBill, s1) =
            (case billIndex of
               Some i \<Rightarrow>
                 (let b = bills s ! i;
                      ordersCopy = map (\<lambda>ord. \<lparr>order = order ord, food = food ord, drinks = drinks ord\<rparr>)
                                       (bill_orders b)
                  in (\<lparr>bill = bill b, bill_guest = bill_guest b, bill_orders = ordersCopy, totalSum = 0\<rparr>, s))
             | None \<Rightarrow>
                 (\<lparr>bill = billIdCounter s, bill_guest = guest guestDelivery, bill_orders = [], totalSum = 0\<rparr>,
                  s\<lparr>billIdCounter := billIdCounter s + 1\<rparr>));
          newBill1 = addFoodOrderToBill guestDelivery newBill
      in case calculateTotalSum s1 newBill1 of
           Inl e \<Rightarrow> (Inl e, s1)
         | Inr newBill2 \<Rightarrow>
             (let s2 = (case billIndex of
                          Some i \<Rightarrow> s1\<lparr>bills := (bills s1)[i := newBill2]\<rparr>
                        | None \<Rightarrow> s1\<lparr>bills := bills s1 @ [newBill2]\<rparr>)
              in (Inr \<lparr>gb_bill = bill newBill2,
                       orderedDrinks = concat (map drinks (bill_orders newBill2)),
                       orderedFood = concat (map food (bill_orders newBill2)),
                       gb_totalSum = totalSum newBill2\<rparr>, s2)))"

section \<open>Payment options\<close>

definition getPaymentOption :: "real \<Rightarrow> PAYMENT_METHOD list" where
  "getPaymentOption amount =
     (let paymentMethods = [Cash]
      in if amount < 20 then paymentMethods
         else paymentMethods @ [DebitCard, CreditCard])"

section \<open>Payments\<close>

text \<open>
  The body of the two inner loops of \<open>removeBillItemsFromDeliveredItems\<close>: if the list
  includes the id, the element at the index of its first occurrence is spliced out.
\<close>

definition removeItem :: "int list \<Rightarrow> int \<Rightarrow> int list" where
  "removeItem items itemId =
     (if itemId \<in> set items
      then (case findIndex (\<lambda>item. itemId = item) items of
              Some i \<Rightarrow> splice1 i items
            | None \<Rightarrow> items)
      else items)"

text \<open>The body of the outer loop, for one delivered order line.\<close>

definition removeBillItems :: "Bill \<Rightarrow> OrderLine \<Rightarrow> OrderLine" where
  "removeBillItems b ord =
     (case find (\<lambda>orderObj. order orderObj = order ord) (bill_orders b) of
        Some billOrder \<Rightarrow>
          ord\<lparr>drinks := foldl removeItem (drinks ord) (drinks billOrder),
              food := foldl removeItem (food ord) (food billOrder)\<rparr>
      | None \<Rightarrow> ord)"

text \<open>
  The order lines of the guest's ledger entry are changed in place, so the state
  returned holds them. With no entry for the guest, \<open>this.guestOrders[-1]\<close> is
  \<open>undefined\<close> and reading its \<open>orders\<close> throws before anything is changed.
\<close>

definition removeBillItemsFromDeliveredItems ::
  "BillingService \<Rightarrow> Bill \<Rightarrow> (error + nat \<times> OrderLine list) \<times> BillingService" where
  "removeBillItemsFromDeliveredItems s b =
     (case findIndex (\<lambda>items. guest items = bill_guest b) (guestOrders s) of
        None \<Rightarrow> (Inl TypeError, s)
      | Some deliveredItemsIndex \<Rightarrow>
          (let entry = guestOrders s ! deliveredItemsIndex;
               deliveredOrders = map (removeBillItems b) (orders entry)
           in (Inr (deliveredItemsIndex, deliveredOrders),
               s\<lparr>guestOrders := (guestOrders s)[deliveredItemsIndex := entry\<lparr>orders := deliveredOrders\<rparr>]\<rparr>)))"

text \<open>
  With no bill of the given id, \<open>this.bills[-1]\<close> is \<open>undefined\<close> and reading its
  \<open>orders\<close> throws.
\<close>

definition registerPayment :: "BillingService \<Rightarrow> int \<Rightarrow> (error + PaidBill) \<times> BillingService" where
  "registerPayment s billId =
     (case findIndex (\<lambda>b. bill b = billId) (bills s) of
        None \<Rightarrow> (Inl TypeError, s)
      | Some billIndex \<Rightarrow>
          (let b = bills s ! billIndex;
               paidOrders = map (\<lambda>ord. \<lparr>po_order = order ord, paidDrinks = drinks ord, paidFood = food ord\<rparr>)
                                (bill_orders b);
               paidBill = \<lparr>pb_bill = billId, paidOrders = paidOrders, pb_totalSum = totalSum b\<rparr>
           in case removeBillItemsFromDeliveredItems s b of
                (Inl e, s1) \<Rightarrow> (Inl e, s1)
              | (Inr (deliveredItemsIndex, deliveredOrders), s1) \<Rightarrow>
                  (let entry = guestOrders s1 ! deliveredItemsIndex;
                       s2 = s1\<lparr>guestOrders := (guestOrders s1)[deliveredItemsIndex :=
                                 entry\<lparr>orders := filter (\<lambda>ord. length (food ord) > 0 \<or> length (drinks ord) > 0)
                                                        deliveredOrders\<rparr>]\<rparr>;
                       s3 = s2\<lparr>bills := splice1 billIndex (bills s2)\<rparr>
                   in (Inr paidBill, s3))))"

section \<open>Deliveries\<close>

definition registerDeliveredItems :: "BillingService \<Rightarrow> ItemRegistration \<Rightarrow> BillingService" where
  "registerDeliveredItems s itemRegistration =
     (let g = ir_guest itemRegistration; ord = ir_order itemRegistration;
          fd = ir_food itemRegistration; dr = ir_drinks itemRegistration
      in case findIndex (\<lambda>items. guest items = g) (guestOrders s) of
           Some gi \<Rightarrow>
             (let guestDelivery = guestOrders s ! gi
              in case findIndex (\<lambda>deliveryOrder. order deliveryOrder = ord) (orders guestDelivery) of
                   Some oi \<Rightarrow>
                     (let guestOrder = orders guestDelivery ! oi
                      in s\<lparr>guestOrders := (guestOrders s)[gi := guestDelivery\<lparr>orders :=
                             (orders guestDelivery)[oi := guestOrder\<lparr>food := food guestOrder @ fd,
                                                                     drinks := drinks guestOrder @ dr\<rparr>]\<rparr>]\<rparr>)
                 | None \<Rightarrow>
                     s\<lparr>guestOrders := (guestOrders s)[gi := guestDelivery\<lparr>orders :=
                         orders guestDelivery @ [\<lparr>order = ord, food = fd, drinks = dr\<rparr>]\<rparr>]\<rparr>)
         | None \<Rightarrow>
             s\<lparr>guestOrders := guestOrders s @
                 [\<lparr>guest = g, orders = [\<lparr>order = ord, food = fd, drinks = dr\<rparr>]\<rparr>]\<rparr>)"

section \<open>Notions used in the properties\<close>

text \<open>
  The price the menu gives for an id (0 for an id the menu does not list), the sum of
  the prices of one order line and of a list of order lines.
\<close>

definition priceOf :: "MenuItem list \<Rightarrow> int \<Rightarrow> real" where
  "priceOf items i =
     (case find (\<lambda>item. item_id item = i) items of Some item \<Rightarrow> price item | None \<Rightarrow> 0)"

definition lineTotal :: "Menu \<Rightarrow> OrderLine \<Rightarrow> real" where
  "lineTotal m ord =
     sum_list (map (priceOf (menu_drinks m)) (drinks ord)) +
     sum_list (map (priceOf (menu_food m)) (food ord))"

definition billTotal :: "Menu \<Rightarrow> OrderLine list \<Rightarrow> real" where
  "billTotal m ords = sum_list (map (lineTotal m) ords)"



text \<open>
  The state invariant: at most one ledger entry per guest, at most one order line per
  order id within a ledger entry, at most one open bill per guest.
\<close>

definition invariant :: "BillingService \<Rightarrow> bool" where
  "invariant s =
     (distinct (map guest (guestOrders s)) \<and>
      list_all (\<lambda>entry. distinct (map order (orders entry))) (guestOrders s) \<and>
      distinct (map bill_guest (bills s)))"

text \<open>
  Bill ids are unique and below the counter that hands them out. This holds in the
  fresh service and every operation keeps it.
\<close>

definition billIdsFresh :: "BillingService \<Rightarrow> bool" where
  "billIdsFresh s =
     (distinct (map bill (bills s)) \<and> list_all (\<lambda>b. bill b < billIdCounter s) (bills s))"

text \<open>
  The food and drink ids that a bill holds for an order id, as multisets: those of its
  first line with the order id, none when it has no such line.
\<close>

definition billedFood :: "Bill \<Rightarrow> int \<Rightarrow> int multiset" where
  "billedFood b ordId =
     (case find (\<lambda>orderObj. order orderObj = ordId) (bill_orders b) of
        Some billOrder \<Rightarrow> mset (food billOrder)
      | None \<Rightarrow> {#})"

definition billedDrinks :: "Bill \<Rightarrow> int \<Rightarrow> int multiset" where
  "billedDrinks b ordId =
     (case find (\<lambda>orderObj. order orderObj = ordId) (bill_orders b) of
        Some billOrder \<Rightarrow> mset (drinks billOrder)
      | None \<Rightarrow> {#})"

section \<open>A scenario\<close>

text \<open>
  The menu lists food 101 at 5, food 102 at 7 and drink 201 at 3. Guest 1 gets food
  101 and 102 and drink 201 for order 1, then asks for the bill.
\<close>

definition scenario_menu :: Menu where
  "scenario_menu =
     \<lparr>menu_food = [\<lparr>item_id = 101, price = 5\<rparr>, \<lparr>item_id = 102, price = 7\<rparr>],
      menu_drinks = [\<lparr>item_id = 201, price = 3\<rparr>]\<rparr>"

definition scenario_entry :: GuestOrders where
  "scenario_entry = \<lparr>guest = 1, orders = [\<lparr>order = 1, food = [101, 102], drinks = [201]\<rparr>]\<rparr>"

definition scenario_delivered :: BillingService where
  "scenario_delivered =
     registerDeliveredItems (BillingService_new\<lparr>menu := Some scenario_menu\<rparr>)
       \<lparr>ir_guest = 1, ir_order = 1, ir_food = [101, 102], ir_drinks = [201]\<rparr>"

definition scenario_billed :: BillingService where
  "scenario_billed = snd (generateBill scenario_delivered scenario_entry)"

text \<open>
  The bill asked for on a service that has registered no delivery at all: guest 1 then
  has an open bill and no ledger entry.
\<close>

definition scenario_unledgered :: BillingService where
  "scenario_unledgered =
     snd (generateBill (BillingService_new\<lparr>menu := Some scenario_menu\<rparr>) scenario_entry)"

text \<open>
  After the bill, food 101 is delivered once more for order 1 and food 103 for a new
  order 2; \<open>scenario_bill\<close> is the bill of guest 1 that is open then.
\<close>

definition scenario_redelivered :: BillingService where
  "scenario_redelivered =
     registerDeliveredItems
       (registerDeliveredItems scenario_billed
          \<lparr>ir_guest = 1, ir_order = 1, ir_food = [101], ir_drinks = []\<rparr>)
       \<lparr>ir_guest = 1, ir_order = 2, ir_food = [103], ir_drinks = []\<rparr>"

definition scenario_bill :: Bill where
  "scenario_bill =
     \<lparr>bill = 1, bill_guest = 1,
      bill_orders = [\<lparr>order = 1, food = [101, 102], drinks = [201]\<rparr>], totalSum = 15\<rparr>"

section \<open>Facts about the array helpers\<close>

lemma findIndex_None_iff: "findIndex P xs = None \<longleftrightarrow> (\<forall>x\<in>set xs. \<not> P x)"
  by (induction xs) auto

lemma findIndex_Some_iff:
  "findIndex P xs = Some i \<longleftrightarrow> i < length xs \<and> P (xs ! i) \<and> (\<forall>j<i. \<not> P (xs ! j))"
proof (induction xs arbitrary: i)
  case Nil
  then show ?case by simp
next
  case (Cons x xs)
  show ?case
  proof (cases "P x")
    case True
    then show ?thesis by (cases i) auto
  next
    case False
    then show ?thesis
      by (cases i) (auto simp: Cons.IH nth_Cons' less_Suc_eq_0_disj)
  qed
qed

section \<open>The payment options by amount\<close>

text \<open>
  C10: \<open>getPaymentOption\<close> always offers cash; below 20 it offers cash only, from 20 on
  it offers cash, debit card and credit card in this order; in particular at 19.99 and
  at 20.
\<close>

theorem getPaymentOption_cases:
  "Cash \<in> set (getPaymentOption amount) \<and>
   (amount < 20 \<longrightarrow> getPaymentOption amount = [Cash]) \<and>
   (20 \<le> amount \<longrightarrow> getPaymentOption amount = [Cash, DebitCard, CreditCard]) \<and>
   getPaymentOption 19.99 = [Cash] \<and>
   getPaymentOption 20 = [Cash, DebitCard, CreditCard]"
  by (simp add: getPaymentOption_def Let_def)

theorem getPaymentOption_cases_witness:
  "(5::real) < 20 \<and> getPaymentOption 5 = [Cash] \<and>
   (20::real) \<le> 25 \<and> getPaymentOption 25 = [Cash, DebitCard, CreditCard]"
  using getPaymentOption_cases [of 5] getPaymentOption_cases [of 25] by simp

section \<open>The retry schedule\<close>

lemma handleGetMenuErrors_delay:
  "fst (handleGetMenuErrors s) =
     (if retryCounter s > 0
      then map_option (\<lambda>f. f * 1000) (js_index (fibonacciSeq s) (MAX_RETRY_COUNT - retryCounter s))
      else Some 60000)"
  by (simp add: handleGetMenuErrors_def)

lemma handleGetMenuErrors_state:
  "snd (handleGetMenuErrors s) =
     s\<lparr>retryCounter := (if retryCounter s > 0 then retryCounter s else MAX_RETRY_COUNT) - 1\<rparr>"
  by (simp add: handleGetMenuErrors_def)

lemma getMenu_failed_fetch:
  "fst (getMenu (None # rs) s) =
     fst (handleGetMenuErrors s) # fst (getMenu rs (snd (handleGetMenuErrors s)))"
  by (simp add: split_def Let_def)

lemma getMenu_pending: "fst (getMenu [] s) = []"
  by simp

lemma getFibonacciSequence_5: "getFibonacciSequence MAX_RETRY_COUNT = [1, 1, 2, 3, 5]"
  by (simp add: getFibonacciSequence_def MAX_RETRY_COUNT_def eval_nat_numeral)

text \<open>
  C8: the delays of eleven failed fetches in a row, for any precomputed sequence of
  five numbers. The first round waits on all five numbers and then cools down for
  60000 ms. The cooldown sets \<open>retryCounter\<close> to 5 and the decrement shared by both
  branches makes it 4 at once, so the second round starts at the second number and has
  four short retries, not five.
\<close>

theorem retry_schedule_second_round:
  "fst (getMenu [None, None, None, None, None, None, None, None, None, None, None]
          (BillingService_new\<lparr>fibonacciSeq := [f1, f2, f3, f4, f5]\<rparr>)) =
   [Some (f1 * 1000), Some (f2 * 1000), Some (f3 * 1000), Some (f4 * 1000), Some (f5 * 1000),
    Some 60000,
    Some (f2 * 1000), Some (f3 * 1000), Some (f4 * 1000), Some (f5 * 1000),
    Some 60000]"
  by (simp add: getMenu_failed_fetch handleGetMenuErrors_delay handleGetMenuErrors_state
      BillingService_new_def MAX_RETRY_COUNT_def js_index_def getMenu_pending del: getMenu.simps)

section \<open>Deliveries by cases\<close>

text \<open>
  C6: \<open>registerDeliveredItems\<close> by cases. With no ledger entry of the guest, an entry
  with the single order line is appended. With an entry of the guest (the first one,
  at index \<open>gi\<close>) that has no line of the order id, the line is appended to that
  entry. With a line of the order id (the first one, at index \<open>oi\<close>), the delivered
  food and drinks are appended to the lists of that line, nothing is replaced or
  deduplicated. Nothing but the ledger changes. Delivering food 101 twice for guest 2
  and order 5 leaves the food list [101, 101].
\<close>

theorem registerDeliveredItems_cases:
  "((\<forall>e\<in>set (guestOrders s). guest e \<noteq> ir_guest r) \<longrightarrow>
      guestOrders (registerDeliveredItems s r) =
        guestOrders s @
          [\<lparr>guest = ir_guest r,
            orders = [\<lparr>order = ir_order r, food = ir_food r, drinks = ir_drinks r\<rparr>]\<rparr>]) \<and>
   (gi < length (guestOrders s) \<and> guest (guestOrders s ! gi) = ir_guest r \<and>
    (\<forall>j<gi. guest (guestOrders s ! j) \<noteq> ir_guest r) \<and>
    (\<forall>l\<in>set (orders (guestOrders s ! gi)). order l \<noteq> ir_order r) \<longrightarrow>
      guestOrders (registerDeliveredItems s r) =
        (guestOrders s)[gi := (guestOrders s ! gi)\<lparr>orders :=
           orders (guestOrders s ! gi) @
             [\<lparr>order = ir_order r, food = ir_food r, drinks = ir_drinks r\<rparr>]\<rparr>]) \<and>
   (gi < length (guestOrders s) \<and> guest (guestOrders s ! gi) = ir_guest r \<and>
    (\<forall>j<gi. guest (guestOrders s ! j) \<noteq> ir_guest r) \<and>
    oi < length (orders (guestOrders s ! gi)) \<and>
    order (orders (guestOrders s ! gi) ! oi) = ir_order r \<and>
    (\<forall>j<oi. order (orders (guestOrders s ! gi) ! j) \<noteq> ir_order r) \<longrightarrow>
      guestOrders (registerDeliveredItems s r) =
        (guestOrders s)[gi := (guestOrders s ! gi)\<lparr>orders :=
           (orders (guestOrders s ! gi))[oi := (orders (guestOrders s ! gi) ! oi)
              \<lparr>food := food (orders (guestOrders s ! gi) ! oi) @ ir_food r,
               drinks := drinks (orders (guestOrders s ! gi) ! oi) @ ir_drinks r\<rparr>]\<rparr>]) \<and>
   (registerDeliveredItems s r)\<lparr>guestOrders := guestOrders s\<rparr> = s \<and>
   guestOrders (registerDeliveredItems
       (registerDeliveredItems BillingService_new
          \<lparr>ir_guest = 2, ir_order = 5, ir_food = [101], ir_drinks = []\<rparr>)
       \<lparr>ir_guest = 2, ir_order = 5, ir_food = [101], ir_drinks = []\<rparr>) =
     [\<lparr>guest = 2, orders = [\<lparr>order = 5, food = [101, 101], drinks = []\<rparr>]\<rparr>]"
proof (intro conjI impI)
  assume "\<forall>e\<in>set (guestOrders s). guest e \<noteq> ir_guest r"
  then have "findIndex (\<lambda>items. guest items = ir_guest r) (guestOrders s) = None"
    by (simp add: findIndex_None_iff)
  then show "guestOrders (registerDeliveredItems s r) =
        guestOrders s @
          [\<lparr>guest = ir_guest r,
            orders = [\<lparr>order = ir_order r, food = ir_food r, drinks = ir_drinks r\<rparr>]\<rparr>]"
    by (simp add: registerDeliveredItems_def Let_def)
next
  assume a: "gi < length (guestOrders s) \<and> guest (guestOrders s ! gi) = ir_guest r \<and>
    (\<forall>j<gi. guest (guestOrders s ! j) \<noteq> ir_guest r) \<and>
    (\<forall>l\<in>set (orders (guestOrders s ! gi)). order l \<noteq> ir_order r)"
  then have g: "findIndex (\<lambda>items. guest items = ir_guest r) (guestOrders s) = Some gi"
    by (simp add: findIndex_Some_iff)
  from a have "findIndex (\<lambda>deliveryOrder. order deliveryOrder = ir_order r)
                 (orders (guestOrders s ! gi)) = None"
    by (simp add: findIndex_None_iff)
  with g show "guestOrders (registerDeliveredItems s r) =
        (guestOrders s)[gi := (guestOrders s ! gi)\<lparr>orders :=
           orders (guestOrders s ! gi) @
             [\<lparr>order = ir_order r, food = ir_food r, drinks = ir_drinks r\<rparr>]\<rparr>]"
    by (simp add: registerDeliveredItems_def Let_def)
next
  assume a: "gi < length (guestOrders s) \<and> guest (guestOrders s ! gi) = ir_guest r \<and>
    (\<forall>j<gi. guest (guestOrders s ! j) \<noteq> ir_guest r) \<and>
    oi < length (orders (guestOrders s ! gi)) \<and>
    order (orders (guestOrders s ! gi) ! oi) = ir_order r \<and>
    (\<forall>j<oi. order (orders (guestOrders s ! gi) ! j) \<noteq> ir_order r)"
  then have g: "findIndex (\<lambda>items. guest items = ir_guest r) (guestOrders s) = Some gi"
    by (simp add: findIndex_Some_iff)
  from a have "findIndex (\<lambda>deliveryOrder. order deliveryOrder = ir_order r)
                 (orders (guestOrders s ! gi)) = Some oi"
    by (simp add: findIndex_Some_iff)
  with g show "guestOrders (registerDeliveredItems s r) =
        (guestOrders s)[gi := (guestOrders s ! gi)\<lparr>orders :=
           (orders (guestOrders s ! gi))[oi := (orders (guestOrders s ! gi) ! oi)
              \<lparr>food := food (orders (guestOrders s ! gi) ! oi) @ ir_food r,
               drinks := drinks (orders (guestOrders s ! gi) ! oi) @ ir_drinks r\<rparr>]\<rparr>]"
    by (simp add: registerDeliveredItems_def Let_def)
next
  show "(registerDeliveredItems s r)\<lparr>guestOrders := guestOrders s\<rparr> = s"
    by (simp add: registerDeliveredItems_def Let_def split: option.splits)
next
  show "guestOrders (registerDeliveredItems
       (registerDeliveredItems BillingService_new
          \<lparr>ir_guest = 2, ir_order = 5, ir_food = [101], ir_drinks = []\<rparr>)
       \<lparr>ir_guest = 2, ir_order = 5, ir_food = [101], ir_drinks = []\<rparr>) =
     [\<lparr>guest = 2, orders = [\<lparr>order = 5, food = [101, 101], drinks = []\<rparr>]\<rparr>]"
    by (simp add: registerDeliveredItems_def Let_def BillingService_new_def)
qed

theorem registerDeliveredItems_cases_witness:
  "guestOrders (registerDeliveredItems BillingService_new
       \<lparr>ir_guest = 1, ir_order = 1, ir_food = [101, 102], ir_drinks = [201]\<rparr>) =
     [\<lparr>guest = 1, orders = [\<lparr>order = 1, food = [101, 102], drinks = [201]\<rparr>]\<rparr>] \<and>
   guestOrders (registerDeliveredItems
       (BillingService_new\<lparr>guestOrders :=
          [\<lparr>guest = 1, orders = [\<lparr>order = 1, food = [101, 102], drinks = [201]\<rparr>]\<rparr>]\<rparr>)
       \<lparr>ir_guest = 1, ir_order = 2, ir_food = [103], ir_drinks = []\<rparr>) =
     [\<lparr>guest = 1, orders = [\<lparr>order = 1, food = [101, 102], drinks = [201]\<rparr>,
                             \<lparr>order = 2, food = [103], drinks = []\<rparr>]\<rparr>] \<and>
   guestOrders (registerDeliveredItems
       (BillingService_new\<lparr>guestOrders :=
          [\<lparr>guest = 1, orders = [\<lparr>order = 1, food = [101, 102], drinks = [201]\<rparr>]\<rparr>]\<rparr>)
       \<lparr>ir_guest = 1, ir_order = 1, ir_food = [101], ir_drinks = [202]\<rparr>) =
     [\<lparr>guest = 1, orders = [\<lparr>order = 1, food = [101, 102, 101], drinks = [201, 202]\<rparr>]\<rparr>]"
  using registerDeliveredItems_cases [of BillingService_new
          "\<lparr>ir_guest = 1, ir_order = 1, ir_food = [101, 102], ir_drinks = [201]\<rparr>" 0 0]
        registerDeliveredItems_cases [of "BillingService_new\<lparr>guestOrders :=
          [\<lparr>guest = 1, orders = [\<lparr>order = 1, food = [101, 102], drinks = [201]\<rparr>]\<rparr>]\<rparr>"
          "\<lparr>ir_guest = 1, ir_order = 2, ir_food = [103], ir_drinks = []\<rparr>" 0 0]
        registerDeliveredItems_cases [of "BillingService_new\<lparr>guestOrders :=
          [\<lparr>guest = 1, orders = [\<lparr>order = 1, food = [101, 102], drinks = [201]\<rparr>]\<rparr>]\<rparr>"
          "\<lparr>ir_guest = 1, ir_order = 1, ir_food = [101], ir_drinks = [202]\<rparr>" 0 0]
  by (simp add: BillingService_new_def)

section \<open>Facts about the lines of a bill\<close>

lemma addOrder_present:
  "order ord \<in> order ` set ls \<Longrightarrow>
     \<exists>i. findIndex (\<lambda>billOrder. order billOrder = order ord) ls = Some i \<and>
         addOrder ls ord = ls[i := (ls ! i)\<lparr>food := food ord, drinks := drinks ord\<rparr>]"
proof -
  assume "order ord \<in> order ` set ls"
  then have "findIndex (\<lambda>billOrder. order billOrder = order ord) ls \<noteq> None"
    by (auto simp: findIndex_None_iff)
  then show ?thesis by (auto simp: addOrder_def)
qed

lemma addOrder_absent:
  "order ord \<notin> order ` set ls \<Longrightarrow>
     addOrder ls ord = ls @ [\<lparr>order = order ord, food = food ord, drinks = drinks ord\<rparr>]"
proof -
  assume "order ord \<notin> order ` set ls"
  then have "findIndex (\<lambda>billOrder. order billOrder = order ord) ls = None"
    by (auto simp: findIndex_None_iff image_iff)
  then show ?thesis by (simp add: addOrder_def)
qed

lemma map_order_addOrder:
  "map order (addOrder ls ord) =
     (if order ord \<in> order ` set ls then map order ls else map order ls @ [order ord])"
proof (cases "order ord \<in> order ` set ls")
  case True
  from addOrder_present [OF True] obtain i where
    i: "findIndex (\<lambda>billOrder. order billOrder = order ord) ls = Some i"
    and eq: "addOrder ls ord = ls[i := (ls ! i)\<lparr>food := food ord, drinks := drinks ord\<rparr>]"
    by blast
  from i have "i < length ls" by (simp add: findIndex_Some_iff)
  with eq True show ?thesis by (simp add: map_update list_update_same_conv)
next
  case False
  then show ?thesis by (simp add: addOrder_absent)
qed

lemma addOrder_has:
  "\<exists>l\<in>set (addOrder ls ord). order l = order ord \<and> food l = food ord \<and> drinks l = drinks ord"
proof (cases "order ord \<in> order ` set ls")
  case True
  from addOrder_present [OF True] obtain i where
    i: "findIndex (\<lambda>billOrder. order billOrder = order ord) ls = Some i"
    and eq: "addOrder ls ord = ls[i := (ls ! i)\<lparr>food := food ord, drinks := drinks ord\<rparr>]"
    by blast
  from i have il: "i < length ls" and io: "order (ls ! i) = order ord"
    by (simp_all add: findIndex_Some_iff)
  from il have "(ls ! i)\<lparr>food := food ord, drinks := drinks ord\<rparr> \<in> set (addOrder ls ord)"
    unfolding eq by (rule set_update_memI)
  with io show ?thesis
    by (intro bexI [of _ "(ls ! i)\<lparr>food := food ord, drinks := drinks ord\<rparr>"]) simp_all
next
  case False
  then show ?thesis by (simp add: addOrder_absent)
qed

lemma addOrder_nth_other:
  "i < length ls \<Longrightarrow> order (ls ! i) \<noteq> order ord \<Longrightarrow> addOrder ls ord ! i = ls ! i"
proof (cases "order ord \<in> order ` set ls")
  case True
  assume il: "i < length ls" and ne: "order (ls ! i) \<noteq> order ord"
  from addOrder_present [OF True] obtain k where
    k: "findIndex (\<lambda>billOrder. order billOrder = order ord) ls = Some k"
    and eq: "addOrder ls ord = ls[k := (ls ! k)\<lparr>food := food ord, drinks := drinks ord\<rparr>]"
    by blast
  from k have "order (ls ! k) = order ord" by (simp add: findIndex_Some_iff)
  with ne have "k \<noteq> i" by auto
  then show ?thesis by (simp add: eq)
next
  case False
  assume "i < length ls"
  with False show ?thesis by (simp add: addOrder_absent nth_append)
qed

lemma length_addOrder: "length ls \<le> length (addOrder ls ord)"
  by (auto simp: addOrder_def split: option.splits)

lemma addOrder_keeps:
  "l \<in> set ls \<Longrightarrow> order l \<noteq> order ord \<Longrightarrow> l \<in> set (addOrder ls ord)"
proof -
  assume "l \<in> set ls" and ne: "order l \<noteq> order ord"
  then obtain i where il: "i < length ls" and li: "ls ! i = l"
    by (auto simp: in_set_conv_nth)
  with ne have "addOrder ls ord ! i = l" by (simp add: addOrder_nth_other)
  moreover from il length_addOrder [of ls ord] have "i < length (addOrder ls ord)" by simp
  ultimately show ?thesis by (auto simp: in_set_conv_nth)
qed

lemma foldl_addOrder_has:
  "distinct (map order ords) \<Longrightarrow> ord \<in> set ords \<Longrightarrow>
     \<exists>l\<in>set (foldl addOrder ls ords). order l = order ord \<and> food l = food ord \<and> drinks l = drinks ord"
proof (induction ords rule: rev_induct)
  case Nil
  then show ?case by simp
next
  case (snoc x xs)
  show ?case
  proof (cases "ord = x")
    case True
    then show ?thesis using addOrder_has [of "foldl addOrder ls xs" x] by simp
  next
    case False
    with snoc.prems have mem: "ord \<in> set xs" and ne: "order ord \<noteq> order x"
      by (auto simp: image_iff)
    from snoc.prems have "distinct (map order xs)" by simp
    from snoc.IH [OF this mem] obtain l where
      l: "l \<in> set (foldl addOrder ls xs)" "order l = order ord" "food l = food ord" "drinks l = drinks ord"
      by blast
    with ne have "l \<in> set (addOrder (foldl addOrder ls xs) x)" by (simp add: addOrder_keeps)
    with l show ?thesis by auto
  qed
qed

section \<open>Facts about the total\<close>

lemma addPrices_error: "addPrices m sel ids acc = Inl e \<Longrightarrow> e = TypeError"
  by (induction ids arbitrary: acc) (auto split: option.splits)

lemma sumOrders_error: "sumOrders m ords acc = Inl e \<Longrightarrow> e = TypeError"
  by (induction ords arbitrary: acc) (auto split: sum.splits dest: addPrices_error)

lemma addPrices_Inr_known:
  "addPrices m sel ids acc = Inr t \<Longrightarrow> i \<in> set ids \<Longrightarrow>
     \<exists>mn item. m = Some mn \<and> find (\<lambda>item. item_id item = i) (sel mn) = Some item"
  by (induction ids arbitrary: acc) (auto split: option.splits)

lemma sumOrders_Inr_known:
  "sumOrders m ords acc = Inr t \<Longrightarrow> ord \<in> set ords \<Longrightarrow>
     (\<forall>i\<in>set (drinks ord). \<exists>mn item. m = Some mn \<and> find (\<lambda>item. item_id item = i) (menu_drinks mn) = Some item) \<and>
     (\<forall>i\<in>set (food ord). \<exists>mn item. m = Some mn \<and> find (\<lambda>item. item_id item = i) (menu_food mn) = Some item)"
proof (induction ords arbitrary: acc)
  case Nil
  then show ?case by simp
next
  case (Cons a ords)
  from Cons.prems(1) obtain acc1 acc2 where
    d: "addPrices m menu_drinks (drinks a) acc = Inr acc1" and
    f: "addPrices m menu_food (food a) acc1 = Inr acc2" and
    r: "sumOrders m ords acc2 = Inr t"
    by (auto split: sum.splits)
  show ?case
  proof (cases "ord = a")
    case True
    with d f show ?thesis by (blast dest: addPrices_Inr_known)
  next
    case False
    with Cons.prems(2) have "ord \<in> set ords" by simp
    with Cons.IH [OF r] show ?thesis by blast
  qed
qed

section \<open>The two paths of generateBill\<close>

lemma ordersCopy_eq:
  "map (\<lambda>ord. \<lparr>order = order ord, food = food ord, drinks = drinks ord\<rparr>) ords = ords"
  by (induction ords) simp_all

lemma generateBill_new:
  assumes "findIndex (\<lambda>b. bill_guest b = guest gd) (bills s) = None"
  shows "generateBill s gd =
     (case sumOrders (menu s) (foldl addOrder [] (orders gd)) 0 of
        Inl e \<Rightarrow> (Inl e, s\<lparr>billIdCounter := billIdCounter s + 1\<rparr>)
      | Inr t \<Rightarrow>
          (Inr \<lparr>gb_bill = billIdCounter s,
                orderedDrinks = concat (map drinks (foldl addOrder [] (orders gd))),
                orderedFood = concat (map food (foldl addOrder [] (orders gd))),
                gb_totalSum = t\<rparr>,
           s\<lparr>billIdCounter := billIdCounter s + 1,
             bills := bills s @
               [\<lparr>bill = billIdCounter s, bill_guest = guest gd,
                 bill_orders = foldl addOrder [] (orders gd), totalSum = t\<rparr>]\<rparr>))"
  using assms
  by (simp add: generateBill_def Let_def addFoodOrderToBill_def calculateTotalSum_def
      split: sum.splits)

lemma generateBill_existing:
  assumes "findIndex (\<lambda>b. bill_guest b = guest gd) (bills s) = Some i"
  shows "generateBill s gd =
     (case sumOrders (menu s) (foldl addOrder (bill_orders (bills s ! i)) (orders gd)) 0 of
        Inl e \<Rightarrow> (Inl e, s)
      | Inr t \<Rightarrow>
          (Inr \<lparr>gb_bill = bill (bills s ! i),
                orderedDrinks = concat (map drinks (foldl addOrder (bill_orders (bills s ! i)) (orders gd))),
                orderedFood = concat (map food (foldl addOrder (bill_orders (bills s ! i)) (orders gd))),
                gb_totalSum = t\<rparr>,
           s\<lparr>bills := (bills s)[i :=
               \<lparr>bill = bill (bills s ! i), bill_guest = bill_guest (bills s ! i),
                bill_orders = foldl addOrder (bill_orders (bills s ! i)) (orders gd),
                totalSum = t\<rparr>]\<rparr>))"
  using assms
  by (simp add: generateBill_def Let_def addFoodOrderToBill_def calculateTotalSum_def
      ordersCopy_eq split: sum.splits)

lemma generateBill_error_bills:
  "fst (generateBill s gd) = Inl e \<Longrightarrow>
     e = TypeError \<and> bills (snd (generateBill s gd)) = bills s \<and>
     guestOrders (snd (generateBill s gd)) = guestOrders s"
proof (cases "findIndex (\<lambda>b. bill_guest b = guest gd) (bills s)")
  case None
  assume "fst (generateBill s gd) = Inl e"
  then show ?thesis
    by (auto simp: generateBill_new [OF None] split: sum.splits dest: sumOrders_error)
next
  case (Some i)
  assume "fst (generateBill s gd) = Inl e"
  then show ?thesis
    by (auto simp: generateBill_existing [OF Some] split: sum.splits dest: sumOrders_error)
qed

lemma generateBill_unknown_item:
  assumes d: "distinct (map order (orders gd))" and o: "ord \<in> set (orders gd)"
    and u: "(i \<in> set (food ord) \<and>
             (\<forall>m. menu s = Some m \<longrightarrow> find (\<lambda>item. item_id item = i) (menu_food m) = None)) \<or>
            (i \<in> set (drinks ord) \<and>
             (\<forall>m. menu s = Some m \<longrightarrow> find (\<lambda>item. item_id item = i) (menu_drinks m) = None))"
  shows "\<exists>e. fst (generateBill s gd) = Inl e"
proof -
  have fail: "\<exists>e. sumOrders (menu s) (foldl addOrder ls (orders gd)) 0 = Inl e" for ls
  proof (rule ccontr)
    assume "\<not> ?thesis"
    then obtain t where t: "sumOrders (menu s) (foldl addOrder ls (orders gd)) 0 = Inr t"
      by (cases "sumOrders (menu s) (foldl addOrder ls (orders gd)) 0") auto
    from foldl_addOrder_has [OF d o, of ls] obtain l where
      l: "l \<in> set (foldl addOrder ls (orders gd))" "food l = food ord" "drinks l = drinks ord"
      by blast
    from sumOrders_Inr_known [OF t l(1)] l(2,3) u show False by fastforce
  qed
  show ?thesis
  proof (cases "findIndex (\<lambda>b. bill_guest b = guest gd) (bills s)")
    case None
    from fail [of "[]"] show ?thesis by (auto simp: generateBill_new [OF None])
  next
    case (Some k)
    from fail [of "bill_orders (bills s ! k)"] show ?thesis
      by (auto simp: generateBill_existing [OF Some])
  qed
qed

section \<open>Unknown menu items\<close>

text \<open>
  C5, as the code has it: when the ledger entry handed to \<open>generateBill\<close> has distinct
  order ids and one of its lines holds a food or drink id that the cached menu does not
  list (or no menu is cached), \<open>generateBill\<close> fails with the runtime's \<open>TypeError\<close> of
  the missing-value access; there is no explicit failure for an unknown menu item. The
  bills and the ledger are left as they were.
\<close>

theorem generateBill_unknown_item_TypeError:
  assumes "distinct (map order (orders gd))" and "ord \<in> set (orders gd)"
    and "(i \<in> set (food ord) \<and>
             (\<forall>m. menu s = Some m \<longrightarrow> find (\<lambda>item. item_id item = i) (menu_food m) = None)) \<or>
            (i \<in> set (drinks ord) \<and>
             (\<forall>m. menu s = Some m \<longrightarrow> find (\<lambda>item. item_id item = i) (menu_drinks m) = None))"
  shows "fst (generateBill s gd) = Inl TypeError \<and>
         bills (snd (generateBill s gd)) = bills s \<and>
         guestOrders (snd (generateBill s gd)) = guestOrders s"
proof -
  from generateBill_unknown_item [OF assms] obtain e where
    e: "fst (generateBill s gd) = Inl e" by blast
  from generateBill_error_bills [OF e] e show ?thesis by simp
qed

theorem generateBill_unknown_item_TypeError_witness:
  "fst (generateBill
          (BillingService_new\<lparr>menu := Some \<lparr>menu_food = [\<lparr>item_id = 101, price = 5\<rparr>],
                                            menu_drinks = [\<lparr>item_id = 201, price = 3\<rparr>]\<rparr>\<rparr>)
          \<lparr>guest = 1, orders = [\<lparr>order = 1, food = [999], drinks = [201]\<rparr>]\<rparr>) = Inl TypeError"
  using generateBill_unknown_item_TypeError
    [of "\<lparr>guest = 1, orders = [\<lparr>order = 1, food = [999], drinks = [201]\<rparr>]\<rparr>"
        "\<lparr>order = 1, food = [999], drinks = [201]\<rparr>" 999
        "BillingService_new\<lparr>menu := Some \<lparr>menu_food = [\<lparr>item_id = 101, price = 5\<rparr>],
                                            menu_drinks = [\<lparr>item_id = 201, price = 3\<rparr>]\<rparr>\<rparr>"]
  by simp

text \<open>
  The claim as stated fails: with the menu food 101, drink 201 and a delivered line
  that holds the unlisted food id 999, \<open>generateBill\<close> ends in the \<open>TypeError\<close> of
  reading \<open>.price\<close> of \<open>undefined\<close>, not in an explicit unknown-item failure.
\<close>

theorem generateBill_unknown_item_counterexample:
  "fst (generateBill
          (BillingService_new\<lparr>menu := Some \<lparr>menu_food = [\<lparr>item_id = 101, price = 5\<rparr>],
                                            menu_drinks = [\<lparr>item_id = 201, price = 3\<rparr>]\<rparr>\<rparr>)
          \<lparr>guest = 1, orders = [\<lparr>order = 1, food = [999], drinks = [201]\<rparr>]\<rparr>) = Inl TypeError \<and>
   fst (generateBill
          (BillingService_new\<lparr>menu := Some \<lparr>menu_food = [\<lparr>item_id = 101, price = 5\<rparr>],
                                            menu_drinks = [\<lparr>item_id = 201, price = 3\<rparr>]\<rparr>\<rparr>)
          \<lparr>guest = 1, orders = [\<lparr>order = 1, food = [999], drinks = [201]\<rparr>]\<rparr>) \<noteq> Inl UnknownMenuItem"
  by (simp add: generateBill_def Let_def addFoodOrderToBill_def calculateTotalSum_def
      addOrder_def BillingService_new_def)

section \<open>Payments against a missing bill or a missing ledger entry\<close>

lemma registerPayment_no_bill:
  "findIndex (\<lambda>b. bill b = billId) (bills s) = None \<Longrightarrow>
     registerPayment s billId = (Inl TypeError, s)"
  by (simp add: registerPayment_def)

lemma registerPayment_no_guest:
  "findIndex (\<lambda>b. bill b = billId) (bills s) = Some bi \<Longrightarrow>
   findIndex (\<lambda>items. guest items = bill_guest (bills s ! bi)) (guestOrders s) = None \<Longrightarrow>
     registerPayment s billId = (Inl TypeError, s)"
  by (simp add: registerPayment_def removeBillItemsFromDeliveredItems_def Let_def)

lemma registerPayment_paid:
  "findIndex (\<lambda>b. bill b = billId) (bills s) = Some bi \<Longrightarrow>
   findIndex (\<lambda>items. guest items = bill_guest (bills s ! bi)) (guestOrders s) = Some gi \<Longrightarrow>
     registerPayment s billId =
       (Inr \<lparr>pb_bill = billId,
             paidOrders = map (\<lambda>ord. \<lparr>po_order = order ord, paidDrinks = drinks ord, paidFood = food ord\<rparr>)
                              (bill_orders (bills s ! bi)),
             pb_totalSum = totalSum (bills s ! bi)\<rparr>,
        s\<lparr>guestOrders := (guestOrders s)[gi := (guestOrders s ! gi)\<lparr>orders :=
             filter (\<lambda>ord. food ord \<noteq> [] \<or> drinks ord \<noteq> [])
               (map (removeBillItems (bills s ! bi)) (orders (guestOrders s ! gi)))\<rparr>],
          bills := splice1 bi (bills s)\<rparr>)"
proof -
  assume "findIndex (\<lambda>b. bill b = billId) (bills s) = Some bi"
    and g: "findIndex (\<lambda>items. guest items = bill_guest (bills s ! bi)) (guestOrders s) = Some gi"
  moreover from g have "gi < length (guestOrders s)" by (simp add: findIndex_Some_iff)
  ultimately show ?thesis
    by (simp add: registerPayment_def removeBillItemsFromDeliveredItems_def Let_def)
qed

lemma splice1_no_match:
  assumes "distinct (map f xs)" and "i < length xs"
  shows "\<forall>x\<in>set (splice1 i xs). f x \<noteq> f (xs ! i)"
proof -
  from assms have "xs = take i xs @ xs ! i # drop (Suc i) xs"
    by (simp add: id_take_nth_drop)
  then have "distinct (map f (take i xs @ xs ! i # drop (Suc i) xs))"
    using assms(1) by simp
  then show ?thesis by (auto simp: splice1_def image_iff)
qed

text \<open>
  C4, as the code has it: \<open>registerPayment\<close> fails with the runtime's \<open>TypeError\<close> of a
  missing-value access, and leaves the state as it was, when no open bill has the id
  and when the guest of the bill (the first one with the id, at index \<open>bi\<close>) has no
  ledger entry. A second payment of a bill that was just paid fails in the same way
  when bill ids are unique. There is no explicit failure for a missing bill or guest.
\<close>

theorem registerPayment_missing_TypeError:
  "((\<forall>b\<in>set (bills s). bill b \<noteq> billId) \<longrightarrow>
      registerPayment s billId = (Inl TypeError, s)) \<and>
   (bi < length (bills s) \<and> bill (bills s ! bi) = billId \<and>
    (\<forall>j<bi. bill (bills s ! j) \<noteq> billId) \<and>
    (\<forall>e\<in>set (guestOrders s). guest e \<noteq> bill_guest (bills s ! bi)) \<longrightarrow>
      registerPayment s billId = (Inl TypeError, s)) \<and>
   (distinct (map bill (bills s)) \<and> registerPayment s billId = (Inr paidBill, s') \<longrightarrow>
      registerPayment s' billId = (Inl TypeError, s'))"
proof (intro conjI impI)
  assume "\<forall>b\<in>set (bills s). bill b \<noteq> billId"
  then show "registerPayment s billId = (Inl TypeError, s)"
    by (simp add: registerPayment_no_bill findIndex_None_iff)
next
  assume "bi < length (bills s) \<and> bill (bills s ! bi) = billId \<and>
    (\<forall>j<bi. bill (bills s ! j) \<noteq> billId) \<and>
    (\<forall>e\<in>set (guestOrders s). guest e \<noteq> bill_guest (bills s ! bi))"
  then have "findIndex (\<lambda>b. bill b = billId) (bills s) = Some bi"
    and "findIndex (\<lambda>items. guest items = bill_guest (bills s ! bi)) (guestOrders s) = None"
    by (simp_all add: findIndex_Some_iff findIndex_None_iff)
  then show "registerPayment s billId = (Inl TypeError, s)"
    by (rule registerPayment_no_guest)
next
  assume a: "distinct (map bill (bills s)) \<and> registerPayment s billId = (Inr paidBill, s')"
  then obtain k where k: "findIndex (\<lambda>b. bill b = billId) (bills s) = Some k"
    by (cases "findIndex (\<lambda>b. bill b = billId) (bills s)") (auto simp: registerPayment_no_bill)
  with a obtain gi where
    gi: "findIndex (\<lambda>items. guest items = bill_guest (bills s ! k)) (guestOrders s) = Some gi"
    by (cases "findIndex (\<lambda>items. guest items = bill_guest (bills s ! k)) (guestOrders s)")
       (auto simp: registerPayment_no_guest)
  from a registerPayment_paid [OF k gi] have b': "bills s' = splice1 k (bills s)" by auto
  from k have kl: "k < length (bills s)" and kb: "bill (bills s ! k) = billId"
    by (simp_all add: findIndex_Some_iff)
  from a splice1_no_match [of bill "bills s" k] kl kb
  have "\<forall>b\<in>set (bills s'). bill b \<noteq> billId" by (simp add: b')
  then show "registerPayment s' billId = (Inl TypeError, s')"
    by (simp add: registerPayment_no_bill findIndex_None_iff)
qed

section \<open>The scenario, evaluated\<close>

lemma scenario_delivered_eq:
  "scenario_delivered =
     \<lparr>deliveryIds = [], bills = [],
      guestOrders = [\<lparr>guest = 1, orders = [\<lparr>order = 1, food = [101, 102], drinks = [201]\<rparr>]\<rparr>],
      menu = Some scenario_menu, billIdCounter = 1, retryCounter = 5,
      fibonacciSeq = [1, 1, 2, 3, 5]\<rparr>"
  by (simp add: scenario_delivered_def registerDeliveredItems_def BillingService_new_def
      getFibonacciSequence_5) (simp add: MAX_RETRY_COUNT_def)

lemma scenario_generateBill:
  "generateBill scenario_delivered scenario_entry =
     (Inr \<lparr>gb_bill = 1, orderedDrinks = [201], orderedFood = [101, 102], gb_totalSum = 15\<rparr>,
      \<lparr>deliveryIds = [],
       bills = [\<lparr>bill = 1, bill_guest = 1,
                 bill_orders = [\<lparr>order = 1, food = [101, 102], drinks = [201]\<rparr>],
                 totalSum = 15\<rparr>],
       guestOrders = [\<lparr>guest = 1, orders = [\<lparr>order = 1, food = [101, 102], drinks = [201]\<rparr>]\<rparr>],
       menu = Some scenario_menu, billIdCounter = 2, retryCounter = 5,
       fibonacciSeq = [1, 1, 2, 3, 5]\<rparr>)"
  by (simp add: scenario_delivered_eq scenario_entry_def scenario_menu_def generateBill_def
      Let_def addFoodOrderToBill_def calculateTotalSum_def addOrder_def)

lemma scenario_billed_eq:
  "scenario_billed =
     \<lparr>deliveryIds = [],
      bills = [\<lparr>bill = 1, bill_guest = 1,
                bill_orders = [\<lparr>order = 1, food = [101, 102], drinks = [201]\<rparr>],
                totalSum = 15\<rparr>],
      guestOrders = [\<lparr>guest = 1, orders = [\<lparr>order = 1, food = [101, 102], drinks = [201]\<rparr>]\<rparr>],
      menu = Some scenario_menu, billIdCounter = 2, retryCounter = 5,
      fibonacciSeq = [1, 1, 2, 3, 5]\<rparr>"
  by (simp add: scenario_billed_def scenario_generateBill)

lemma scenario_unledgered_eq:
  "scenario_unledgered =
     \<lparr>deliveryIds = [],
      bills = [\<lparr>bill = 1, bill_guest = 1,
                bill_orders = [\<lparr>order = 1, food = [101, 102], drinks = [201]\<rparr>],
                totalSum = 15\<rparr>],
      guestOrders = [], menu = Some scenario_menu, billIdCounter = 2, retryCounter = 5,
      fibonacciSeq = [1, 1, 2, 3, 5]\<rparr>"
  by (simp add: scenario_unledgered_def BillingService_new_def getFibonacciSequence_5
      scenario_entry_def scenario_menu_def generateBill_def
      Let_def addFoodOrderToBill_def calculateTotalSum_def addOrder_def)
     (simp add: MAX_RETRY_COUNT_def)

lemma scenario_registerPayment:
  "registerPayment scenario_billed 1 =
     (Inr \<lparr>pb_bill = 1,
           paidOrders = [\<lparr>po_order = 1, paidDrinks = [201], paidFood = [101, 102]\<rparr>],
           pb_totalSum = 15\<rparr>,
      \<lparr>deliveryIds = [], bills = [], guestOrders = [\<lparr>guest = 1, orders = []\<rparr>],
       menu = Some scenario_menu, billIdCounter = 2, retryCounter = 5,
       fibonacciSeq = [1, 1, 2, 3, 5]\<rparr>)"
  by (simp add: scenario_billed_eq registerPayment_def removeBillItemsFromDeliveredItems_def
      removeBillItems_def removeItem_def splice1_def Let_def)

theorem registerPayment_missing_TypeError_witness:
  "registerPayment BillingService_new 1 = (Inl TypeError, BillingService_new) \<and>
   registerPayment scenario_unledgered 1 =
     (Inl TypeError, scenario_unledgered) \<and>
   registerPayment (snd (registerPayment scenario_billed 1)) 1 =
     (Inl TypeError, snd (registerPayment scenario_billed 1))"
proof (intro conjI)
  show "registerPayment BillingService_new 1 = (Inl TypeError, BillingService_new)"
    using registerPayment_missing_TypeError [of BillingService_new 1]
    by (simp add: BillingService_new_def)
next
  show "registerPayment scenario_unledgered 1 =
     (Inl TypeError, scenario_unledgered)"
    using registerPayment_missing_TypeError [of scenario_unledgered 1 0]
    by (simp add: scenario_unledgered_eq)
next
  have "distinct (map bill (bills scenario_billed))"
    by (simp add: scenario_billed_eq)
  moreover have "registerPayment scenario_billed 1 =
      (fst (registerPayment scenario_billed 1), snd (registerPayment scenario_billed 1))"
    by simp
  moreover have "fst (registerPayment scenario_billed 1) =
      Inr \<lparr>pb_bill = 1,
           paidOrders = [\<lparr>po_order = 1, paidDrinks = [201], paidFood = [101, 102]\<rparr>],
           pb_totalSum = 15\<rparr>"
    by (simp add: scenario_registerPayment)
  ultimately show "registerPayment (snd (registerPayment scenario_billed 1)) 1 =
     (Inl TypeError, snd (registerPayment scenario_billed 1))"
    using registerPayment_missing_TypeError [of scenario_billed 1 _
        "\<lparr>pb_bill = 1,
           paidOrders = [\<lparr>po_order = 1, paidDrinks = [201], paidFood = [101, 102]\<rparr>],
           pb_totalSum = 15\<rparr>" "snd (registerPayment scenario_billed 1)"]
    by simp
qed

text \<open>
  The claim as stated fails: a payment for bill 1 on a fresh service, with no bill at
  all, ends in the \<open>TypeError\<close> of reading \<open>.orders\<close> of \<open>undefined\<close>, and so does a
  payment of bill 1 when its guest has no ledger entry; neither ends in an explicit
  failure for a missing bill or a missing guest.
\<close>

theorem registerPayment_missing_counterexample:
  "fst (registerPayment BillingService_new 1) = Inl TypeError \<and>
   fst (registerPayment BillingService_new 1) \<noteq> Inl BillNotFound \<and>
   fst (registerPayment scenario_unledgered 1) = Inl TypeError \<and>
   fst (registerPayment scenario_unledgered 1) \<noteq> Inl GuestNotFound"
  by (simp add: scenario_unledgered_eq BillingService_new_def registerPayment_def
      removeBillItemsFromDeliveredItems_def Let_def)

section \<open>The state invariant\<close>

lemma list_all_update:
  "list_all P xs \<Longrightarrow> P y \<Longrightarrow> list_all P (xs[i := y])"
  by (auto simp: list_all_iff dest!: set_update_subset_insert [THEN subsetD])

lemma map_update_same:
  "i < length xs \<Longrightarrow> f y = f (xs ! i) \<Longrightarrow> map f (xs[i := y]) = map f xs"
  by (simp add: map_update list_update_same_conv)

lemma distinct_map_splice1:
  "distinct (map f xs) \<Longrightarrow> distinct (map f (splice1 i xs))"
proof -
  assume d: "distinct (map f xs)"
  have "map f (splice1 i xs) = take i (map f xs) @ drop (Suc i) (map f xs)"
    by (simp add: splice1_def take_map drop_map)
  moreover have "distinct (take i (map f xs) @ drop (Suc i) (map f xs))"
    using d by (auto simp: set_take_disj_set_drop_if_distinct)
  ultimately show ?thesis by simp
qed

lemma order_removeBillItems: "order (removeBillItems b ord) = order ord"
  by (simp add: removeBillItems_def split: option.splits)

lemma invariant_registerDeliveredItems:
  assumes inv: "invariant s"
  shows "invariant (registerDeliveredItems s r)"
proof (cases "findIndex (\<lambda>items. guest items = ir_guest r) (guestOrders s)")
  case None
  then have "guestOrders (registerDeliveredItems s r) =
      guestOrders s @ [\<lparr>guest = ir_guest r,
        orders = [\<lparr>order = ir_order r, food = ir_food r, drinks = ir_drinks r\<rparr>]\<rparr>]"
    and "bills (registerDeliveredItems s r) = bills s"
    by (simp_all add: registerDeliveredItems_def Let_def)
  moreover from None have "ir_guest r \<notin> guest ` set (guestOrders s)"
    by (auto simp: findIndex_None_iff)
  ultimately show ?thesis using inv by (simp add: invariant_def)
next
  case (Some gi)
  then have gi: "gi < length (guestOrders s)" by (simp add: findIndex_Some_iff)
  let ?e = "guestOrders s ! gi"
  from inv gi have de: "distinct (map order (orders ?e))"
    by (simp add: invariant_def list_all_length)
  show ?thesis
  proof (cases "findIndex (\<lambda>deliveryOrder. order deliveryOrder = ir_order r) (orders ?e)")
    case None
    with Some have eq: "guestOrders (registerDeliveredItems s r) =
        (guestOrders s)[gi := ?e\<lparr>orders := orders ?e @
           [\<lparr>order = ir_order r, food = ir_food r, drinks = ir_drinks r\<rparr>]\<rparr>]"
      and b: "bills (registerDeliveredItems s r) = bills s"
      by (simp_all add: registerDeliveredItems_def Let_def)
    from None have "ir_order r \<notin> order ` set (orders ?e)"
      by (auto simp: findIndex_None_iff)
    with de have "distinct (map order (orders ?e @
           [\<lparr>order = ir_order r, food = ir_food r, drinks = ir_drinks r\<rparr>]))"
      by simp
    with inv gi show ?thesis
      by (simp add: invariant_def eq b map_update_same list_all_update)
  next
    case (Some oi)
    then have oi: "oi < length (orders ?e)" by (simp add: findIndex_Some_iff)
    from Some \<open>findIndex (\<lambda>items. guest items = ir_guest r) (guestOrders s) = Some gi\<close>
    have eq: "guestOrders (registerDeliveredItems s r) =
        (guestOrders s)[gi := ?e\<lparr>orders := (orders ?e)[oi := (orders ?e ! oi)
            \<lparr>food := food (orders ?e ! oi) @ ir_food r,
             drinks := drinks (orders ?e ! oi) @ ir_drinks r\<rparr>]\<rparr>]"
      and b: "bills (registerDeliveredItems s r) = bills s"
      by (simp_all add: registerDeliveredItems_def Let_def)
    from de oi have "distinct (map order ((orders ?e)[oi := (orders ?e ! oi)
            \<lparr>food := food (orders ?e ! oi) @ ir_food r,
             drinks := drinks (orders ?e ! oi) @ ir_drinks r\<rparr>]))"
      by (simp add: map_update_same)
    with inv gi show ?thesis
      by (simp add: invariant_def eq b map_update_same list_all_update)
  qed
qed

lemma generateBill_guestOrders: "guestOrders (snd (generateBill s gd)) = guestOrders s"
proof (cases "findIndex (\<lambda>b. bill_guest b = guest gd) (bills s)")
  case None
  then show ?thesis by (simp add: generateBill_new split: sum.splits)
next
  case (Some i)
  then show ?thesis by (simp add: generateBill_existing split: sum.splits)
qed

lemma invariant_generateBill:
  assumes inv: "invariant s"
  shows "invariant (snd (generateBill s gd))"
proof -
  have "distinct (map bill_guest (bills (snd (generateBill s gd))))"
  proof (cases "findIndex (\<lambda>b. bill_guest b = guest gd) (bills s)")
    case None
    then have "guest gd \<notin> bill_guest ` set (bills s)"
      by (auto simp: findIndex_None_iff)
    with inv show ?thesis
      by (simp add: generateBill_new [OF None] invariant_def split: sum.splits)
  next
    case (Some i)
    then have "i < length (bills s)" by (simp add: findIndex_Some_iff)
    with inv show ?thesis
      by (simp add: generateBill_existing [OF Some] invariant_def map_update_same
          split: sum.splits)
  qed
  with inv show ?thesis by (simp add: invariant_def generateBill_guestOrders)
qed

lemma invariant_registerPayment:
  assumes inv: "invariant s"
  shows "invariant (snd (registerPayment s billId))"
proof (cases "findIndex (\<lambda>b. bill b = billId) (bills s)")
  case None
  with inv show ?thesis by (simp add: registerPayment_no_bill)
next
  case (Some bi)
  show ?thesis
  proof (cases "findIndex (\<lambda>items. guest items = bill_guest (bills s ! bi)) (guestOrders s)")
    case None
    with inv Some show ?thesis by (simp add: registerPayment_no_guest)
  next
    case (Some gi)
    then have gi: "gi < length (guestOrders s)" by (simp add: findIndex_Some_iff)
    let ?e = "guestOrders s ! gi"
    from inv gi have "distinct (map order (orders ?e))"
      by (simp add: invariant_def list_all_length)
    then have "distinct (map order (map (removeBillItems (bills s ! bi)) (orders ?e)))"
      by (simp add: order_removeBillItems comp_def)
    then have "distinct (map order (filter (\<lambda>ord. food ord \<noteq> [] \<or> drinks ord \<noteq> [])
        (map (removeBillItems (bills s ! bi)) (orders ?e))))"
      by (rule distinct_map_filter)
    with inv gi show ?thesis
      by (simp add: registerPayment_paid [OF \<open>findIndex (\<lambda>b. bill b = billId) (bills s) = Some bi\<close> Some]
          invariant_def map_update_same list_all_update distinct_map_splice1)
  qed
qed

text \<open>
  C7: each of the three operations preserves the state invariant: at most one ledger
  entry per guest, at most one order line per order id within a ledger entry, at most
  one open bill per guest. This holds for the state a failed call leaves behind, too.
\<close>

theorem operations_preserve_invariant:
  assumes "invariant s"
  shows "invariant (registerDeliveredItems s r) \<and>
         invariant (snd (generateBill s gd)) \<and>
         invariant (snd (registerPayment s billId))"
  using assms
  by (simp add: invariant_registerDeliveredItems invariant_generateBill invariant_registerPayment)

theorem operations_preserve_invariant_witness:
  "invariant scenario_delivered \<and>
   invariant (registerDeliveredItems scenario_delivered
      \<lparr>ir_guest = 1, ir_order = 1, ir_food = [101], ir_drinks = []\<rparr>) \<and>
   invariant (snd (generateBill scenario_delivered scenario_entry)) \<and>
   invariant (snd (registerPayment scenario_delivered 1))"
proof -
  have "invariant scenario_delivered"
    by (simp add: scenario_delivered_eq invariant_def)
  with operations_preserve_invariant [of scenario_delivered
      "\<lparr>ir_guest = 1, ir_order = 1, ir_food = [101], ir_drinks = []\<rparr>" scenario_entry 1]
  show ?thesis by simp
qed

section \<open>The total of a bill\<close>


lemma findIndex_update:
  "findIndex P xs = Some i \<Longrightarrow> P y \<Longrightarrow> findIndex P (xs[i := y]) = Some i"
  by (auto simp: findIndex_Some_iff)

lemma findIndex_append_new:
  "findIndex P xs = None \<Longrightarrow> P y \<Longrightarrow> findIndex P (xs @ [y]) = Some (length xs)"
  by (auto simp: findIndex_Some_iff findIndex_None_iff nth_append)



lemma addPrices_sum:
  "addPrices (Some mn) sel ids acc = Inr t \<Longrightarrow> t = acc + sum_list (map (priceOf (sel mn)) ids)"
proof (induction ids arbitrary: acc)
  case Nil
  then show ?case by simp
next
  case (Cons a ids)
  from Cons.prems obtain item where
    item: "find (\<lambda>item. item_id item = a) (sel mn) = Some item" and
    r: "addPrices (Some mn) sel ids (acc + price item) = Inr t"
    by (auto split: option.splits)
  from Cons.IH [OF r] item show ?case by (simp add: priceOf_def)
qed

lemma sumOrders_sum:
  "sumOrders (Some mn) ords acc = Inr t \<Longrightarrow> t = acc + billTotal mn ords"
proof (induction ords arbitrary: acc)
  case Nil
  then show ?case by (simp add: billTotal_def)
next
  case (Cons a ords)
  from Cons.prems obtain acc1 acc2 where
    d: "addPrices (Some mn) menu_drinks (drinks a) acc = Inr acc1" and
    f: "addPrices (Some mn) menu_food (food a) acc1 = Inr acc2" and
    r: "sumOrders (Some mn) ords acc2 = Inr t"
    by (auto split: sum.splits)
  from addPrices_sum [OF d] addPrices_sum [OF f] Cons.IH [OF r]
  show ?case by (simp add: billTotal_def lineTotal_def)
qed






section \<open>Lines that a regeneration leaves alone\<close>

lemma foldl_addOrder_length: "length ls \<le> length (foldl addOrder ls ords)"
proof (induction ords rule: rev_induct)
  case Nil
  then show ?case by simp
next
  case (snoc x xs)
  from length_addOrder [of "foldl addOrder ls xs" x] snoc.IH show ?case by simp
qed

lemma foldl_addOrder_nth_other:
  "k < length ls \<Longrightarrow> order (ls ! k) \<notin> order ` set ords \<Longrightarrow> foldl addOrder ls ords ! k = ls ! k"
proof (induction ords rule: rev_induct)
  case Nil
  then show ?case by simp
next
  case (snoc x xs)
  from snoc.prems have ih: "foldl addOrder ls xs ! k = ls ! k" and ne: "order (ls ! k) \<noteq> order x"
    by (auto intro: snoc.IH)
  from snoc.prems(1) foldl_addOrder_length [of ls xs] have "k < length (foldl addOrder ls xs)"
    by simp
  with ih ne show ?case by (simp add: addOrder_nth_other)
qed

lemma foldl_addOrder_order_prefix:
  "take (length ls) (map order (foldl addOrder ls ords)) = map order ls"
proof (induction ords rule: rev_induct)
  case Nil
  then show ?case by simp
next
  case (snoc x xs)
  from foldl_addOrder_length [of ls xs] snoc.IH show ?case
    by (simp add: map_order_addOrder)
qed

lemma billTotal_split:
  "k < length ords \<Longrightarrow>
     billTotal m ords = lineTotal m (ords ! k) + billTotal m (take k ords @ drop (Suc k) ords)"
proof -
  assume "k < length ords"
  then have "ords = take k ords @ ords ! k # drop (Suc k) ords"
    by (simp add: id_take_nth_drop)
  then have "billTotal m ords = billTotal m (take k ords @ ords ! k # drop (Suc k) ords)"
    by simp
  then show ?thesis by (simp add: billTotal_def)
qed

text \<open>
  C9: when the guest has an open bill (the first bill of the guest, at index \<open>i\<close>) and
  \<open>generateBill\<close> returns, the regenerated bill keeps the bill id and keeps every line
  of the prior bill in its place with its order id, so no line is deleted. A line of
  the prior bill (at index \<open>k\<close>) whose order id the supplied ledger entry does not
  hold is kept as it is, its ids are part of the flattened lists returned, and, with
  the menu \<open>m\<close> loaded, its prices are part of the new total.
\<close>

theorem generateBill_keeps_prior_lines:
  assumes i: "i < length (bills s) \<and> bill_guest (bills s ! i) = guest gd \<and>
              (\<forall>j<i. bill_guest (bills s ! j) \<noteq> guest gd)"
    and ok: "generateBill s gd = (Inr gb, s')"
    and k: "k < length (bill_orders (bills s ! i))"
    and absent: "order (bill_orders (bills s ! i) ! k) \<notin> order ` set (orders gd)"
    and m: "menu s = Some m"
  shows "bill (bills s' ! i) = bill (bills s ! i) \<and>
         length (bill_orders (bills s ! i)) \<le> length (bill_orders (bills s' ! i)) \<and>
         take (length (bill_orders (bills s ! i))) (map order (bill_orders (bills s' ! i))) =
           map order (bill_orders (bills s ! i)) \<and>
         bill_orders (bills s' ! i) ! k = bill_orders (bills s ! i) ! k \<and>
         set (food (bill_orders (bills s ! i) ! k)) \<subseteq> set (orderedFood gb) \<and>
         set (drinks (bill_orders (bills s ! i) ! k)) \<subseteq> set (orderedDrinks gb) \<and>
         totalSum (bills s' ! i) =
           lineTotal m (bill_orders (bills s ! i) ! k) +
           billTotal m (take k (bill_orders (bills s' ! i)) @ drop (Suc k) (bill_orders (bills s' ! i))) \<and>
         gb_totalSum gb = totalSum (bills s' ! i)"
proof -
  let ?old = "bill_orders (bills s ! i)"
  let ?L = "foldl addOrder ?old (orders gd)"
  from i have fi: "findIndex (\<lambda>b. bill_guest b = guest gd) (bills s) = Some i"
    by (simp add: findIndex_Some_iff)
  from ok obtain t where t: "sumOrders (menu s) ?L 0 = Inr t"
    by (cases "sumOrders (menu s) ?L 0") (auto simp: generateBill_existing [OF fi])
  from ok t i have s': "bills s' ! i =
      \<lparr>bill = bill (bills s ! i), bill_guest = bill_guest (bills s ! i), bill_orders = ?L, totalSum = t\<rparr>"
    and gb: "gb = \<lparr>gb_bill = bill (bills s ! i), orderedDrinks = concat (map drinks ?L),
                   orderedFood = concat (map food ?L), gb_totalSum = t\<rparr>"
    by (auto simp: generateBill_existing [OF fi])
  from k foldl_addOrder_length [of ?old "orders gd"] have kL: "k < length ?L" by simp
  from k absent have same: "?L ! k = ?old ! k" by (rule foldl_addOrder_nth_other)
  from t m have "t = billTotal m ?L" by (auto dest: sumOrders_sum)
  with billTotal_split [OF kL, of m] same
  have total: "t = lineTotal m (?old ! k) + billTotal m (take k ?L @ drop (Suc k) ?L)"
    by simp
  from kL same have mem: "?old ! k \<in> set ?L" by (metis nth_mem)
  then have "set (food (?old ! k)) \<subseteq> set (concat (map food ?L))"
    and "set (drinks (?old ! k)) \<subseteq> set (concat (map drinks ?L))"
    by auto
  with total same foldl_addOrder_length [of ?old "orders gd"]
    foldl_addOrder_order_prefix [of ?old "orders gd"]
  show ?thesis by (simp add: s' gb)
qed

lemma scenario_regenerate:
  "generateBill scenario_billed \<lparr>guest = 1, orders = [\<lparr>order = 2, food = [101], drinks = []\<rparr>]\<rparr> =
     (Inr \<lparr>gb_bill = 1, orderedDrinks = [201], orderedFood = [101, 102, 101], gb_totalSum = 20\<rparr>,
      scenario_billed\<lparr>bills :=
        [\<lparr>bill = 1, bill_guest = 1,
          bill_orders = [\<lparr>order = 1, food = [101, 102], drinks = [201]\<rparr>,
                         \<lparr>order = 2, food = [101], drinks = []\<rparr>],
          totalSum = 20\<rparr>]\<rparr>)"
  by (simp add: scenario_billed_eq scenario_menu_def generateBill_def
      Let_def addFoodOrderToBill_def calculateTotalSum_def addOrder_def)

theorem generateBill_keeps_prior_lines_witness:
  "generateBill scenario_billed \<lparr>guest = 1, orders = [\<lparr>order = 2, food = [101], drinks = []\<rparr>]\<rparr> =
     (Inr \<lparr>gb_bill = 1, orderedDrinks = [201], orderedFood = [101, 102, 101], gb_totalSum = 20\<rparr>,
      scenario_billed\<lparr>bills :=
        [\<lparr>bill = 1, bill_guest = 1,
          bill_orders = [\<lparr>order = 1, food = [101, 102], drinks = [201]\<rparr>,
                         \<lparr>order = 2, food = [101], drinks = []\<rparr>],
          totalSum = 20\<rparr>]\<rparr>) \<and>
   bill_orders (bills scenario_billed ! 0) ! 0 = \<lparr>order = 1, food = [101, 102], drinks = [201]\<rparr> \<and>
   (20::real) = lineTotal scenario_menu \<lparr>order = 1, food = [101, 102], drinks = [201]\<rparr> +
                billTotal scenario_menu [\<lparr>order = 2, food = [101], drinks = []\<rparr>]"
proof -
  have h1: "0 < length (bills scenario_billed) \<and>
      bill_guest (bills scenario_billed ! 0) =
        guest \<lparr>guest = 1, orders = [\<lparr>order = 2, food = [101], drinks = []\<rparr>]\<rparr> \<and>
      (\<forall>j<0. bill_guest (bills scenario_billed ! j) \<noteq>
        guest \<lparr>guest = 1, orders = [\<lparr>order = 2, food = [101], drinks = []\<rparr>]\<rparr>)"
    by (simp add: scenario_billed_eq)
  have h3: "0 < length (bill_orders (bills scenario_billed ! 0))"
    by (simp add: scenario_billed_eq)
  have h4: "order (bill_orders (bills scenario_billed ! 0) ! 0) \<notin>
      order ` set (orders \<lparr>guest = 1, orders = [\<lparr>order = 2, food = [101], drinks = []\<rparr>]\<rparr>)"
    by (simp add: scenario_billed_eq)
  have h5: "menu scenario_billed = Some scenario_menu"
    by (simp add: scenario_billed_eq)
  have line: "bill_orders (bills scenario_billed ! 0) ! 0 =
      \<lparr>order = 1, food = [101, 102], drinks = [201]\<rparr>"
    by (simp add: scenario_billed_eq)
  from generateBill_keeps_prior_lines [OF h1 scenario_regenerate h3 h4 h5] line
  show ?thesis by (simp add: scenario_regenerate)
qed

section \<open>Regenerating twice\<close>

lemma findIndex_map: "findIndex P (map f xs) = findIndex (\<lambda>x. P (f x)) xs"
  by (induction xs) simp_all

lemma findIndex_order_cong:
  "map order xs = map order ys \<Longrightarrow>
     findIndex (\<lambda>l. order l = c) xs = findIndex (\<lambda>l. order l = c) ys"
  using findIndex_map [of "\<lambda>d. d = c" order xs] findIndex_map [of "\<lambda>d. d = c" order ys]
  by simp

lemma findIndex_append_old:
  "findIndex P xs = Some i \<Longrightarrow> findIndex P (xs @ ys) = Some i"
  by (auto simp: findIndex_Some_iff nth_append)

lemma addOrder_absorb:
  assumes "order o1 = order o2"
  shows "addOrder (addOrder ls o2) o1 = addOrder ls o1"
proof (cases "findIndex (\<lambda>billOrder. order billOrder = order o2) ls")
  case None
  then have "findIndex (\<lambda>billOrder. order billOrder = order o2)
      (ls @ [\<lparr>order = order o2, food = food o2, drinks = drinks o2\<rparr>]) = Some (length ls)"
    by (rule findIndex_append_new) simp
  with None assms show ?thesis by (simp add: addOrder_def)
next
  case (Some i)
  then have i: "i < length ls" by (simp add: findIndex_Some_iff)
  let ?u = "ls[i := (ls ! i)\<lparr>food := food o2, drinks := drinks o2\<rparr>]"
  from i have "map order ?u = map order ls" by (simp add: map_update_same)
  from findIndex_order_cong [OF this, of "order o2"] Some
  have "findIndex (\<lambda>billOrder. order billOrder = order o2) ?u = Some i" by simp
  with Some assms i show ?thesis by (simp add: addOrder_def)
qed

lemma addOrder_swap:
  assumes ne: "order o1 \<noteq> order o2" and p: "order o2 \<in> order ` set ls"
  shows "addOrder (addOrder ls o2) o1 = addOrder (addOrder ls o1) o2"
proof -
  from addOrder_present [OF p] obtain i2 where
    f2: "findIndex (\<lambda>billOrder. order billOrder = order o2) ls = Some i2"
    and a2: "addOrder ls o2 = ls[i2 := (ls ! i2)\<lparr>food := food o2, drinks := drinks o2\<rparr>]"
    by blast
  from f2 have i2: "i2 < length ls" and o2: "order (ls ! i2) = order o2"
    by (simp_all add: findIndex_Some_iff)
  let ?u2 = "ls[i2 := (ls ! i2)\<lparr>food := food o2, drinks := drinks o2\<rparr>]"
  from i2 have m2: "map order ?u2 = map order ls" by (simp add: map_update_same)
  show ?thesis
  proof (cases "findIndex (\<lambda>billOrder. order billOrder = order o1) ls")
    case None
    with findIndex_order_cong [OF m2, of "order o1"]
    have "findIndex (\<lambda>billOrder. order billOrder = order o1) ?u2 = None" by simp
    then have l: "addOrder (addOrder ls o2) o1 =
        ?u2 @ [\<lparr>order = order o1, food = food o1, drinks = drinks o1\<rparr>]"
      unfolding a2 by (simp add: addOrder_def)
    from None have a1: "addOrder ls o1 = ls @ [\<lparr>order = order o1, food = food o1, drinks = drinks o1\<rparr>]"
      by (simp add: addOrder_def)
    from f2 have "findIndex (\<lambda>billOrder. order billOrder = order o2)
        (ls @ [\<lparr>order = order o1, food = food o1, drinks = drinks o1\<rparr>]) = Some i2"
      by (rule findIndex_append_old)
    with i2 have "addOrder (addOrder ls o1) o2 =
        ?u2 @ [\<lparr>order = order o1, food = food o1, drinks = drinks o1\<rparr>]"
      unfolding a1 by (simp add: addOrder_def list_update_append nth_append)
    with l show ?thesis by simp
  next
    case (Some i1)
    then have i1: "i1 < length ls" and o1: "order (ls ! i1) = order o1"
      by (simp_all add: findIndex_Some_iff)
    from o1 o2 ne have d: "i1 \<noteq> i2" by auto
    let ?u1 = "ls[i1 := (ls ! i1)\<lparr>food := food o1, drinks := drinks o1\<rparr>]"
    from i1 have m1: "map order ?u1 = map order ls" by (simp add: map_update_same)
    from findIndex_order_cong [OF m2, of "order o1"] Some
    have "findIndex (\<lambda>billOrder. order billOrder = order o1) ?u2 = Some i1" by simp
    with d have l: "addOrder (addOrder ls o2) o1 =
        ?u2[i1 := (ls ! i1)\<lparr>food := food o1, drinks := drinks o1\<rparr>]"
      unfolding a2 by (simp add: addOrder_def)
    from Some have a1: "addOrder ls o1 = ?u1" by (simp add: addOrder_def)
    from findIndex_order_cong [OF m1, of "order o2"] f2
    have "findIndex (\<lambda>billOrder. order billOrder = order o2) ?u1 = Some i2" by simp
    with d have "addOrder (addOrder ls o1) o2 =
        ?u1[i2 := (ls ! i2)\<lparr>food := food o2, drinks := drinks o2\<rparr>]"
      unfolding a1 by (simp add: addOrder_def)
    with l d show ?thesis by (simp add: list_update_swap)
  qed
qed

lemma order_set_addOrder: "order ` set ls \<subseteq> order ` set (addOrder ls ord)"
proof -
  have "set (map order ls) \<subseteq> set (map order (addOrder ls ord))"
    by (simp add: map_order_addOrder del: set_map) auto
  then show ?thesis by simp
qed

lemma foldl_addOrder_absorb:
  "order x \<in> order ` set xs \<Longrightarrow> order ` set xs \<subseteq> order ` set ls \<Longrightarrow>
     foldl addOrder (addOrder ls x) xs = foldl addOrder ls xs"
proof (induction xs arbitrary: ls)
  case Nil
  then show ?case by simp
next
  case (Cons a xs)
  show ?case
  proof (cases "order a = order x")
    case True
    then show ?thesis by (simp add: addOrder_absorb)
  next
    case False
    with Cons.prems have x: "order x \<in> order ` set xs" and a: "order a \<in> order ` set ls"
      and sub: "order ` set xs \<subseteq> order ` set ls"
      by auto
    from False a have sw: "addOrder (addOrder ls x) a = addOrder (addOrder ls a) x"
      by (intro addOrder_swap [symmetric]) auto
    from sub order_set_addOrder [of ls a] have "order ` set xs \<subseteq> order ` set (addOrder ls a)"
      by blast
    from Cons.IH [OF x this] sw show ?thesis by simp
  qed
qed

lemma foldl_addOrder_commute:
  "order x \<notin> order ` set xs \<Longrightarrow> order ` set xs \<subseteq> order ` set ls \<Longrightarrow>
     foldl addOrder (addOrder ls x) xs = addOrder (foldl addOrder ls xs) x"
proof (induction xs arbitrary: ls)
  case Nil
  then show ?case by simp
next
  case (Cons a xs)
  from Cons.prems have ne: "order a \<noteq> order x" and x: "order x \<notin> order ` set xs"
    and a: "order a \<in> order ` set ls" and sub: "order ` set xs \<subseteq> order ` set ls"
    by auto
  from ne a have sw: "addOrder (addOrder ls x) a = addOrder (addOrder ls a) x"
    by (intro addOrder_swap [symmetric]) auto
  from sub order_set_addOrder [of ls a] have "order ` set xs \<subseteq> order ` set (addOrder ls a)"
    by blast
  from Cons.IH [OF x this] sw show ?case by simp
qed

lemma order_set_foldl_addOrder:
  "order ` set ls \<union> order ` set ords \<subseteq> order ` set (foldl addOrder ls ords)"
proof (induction ords rule: rev_induct)
  case Nil
  then show ?case by simp
next
  case (snoc x xs)
  from addOrder_has [of "foldl addOrder ls xs" x] obtain l where
    l: "l \<in> set (addOrder (foldl addOrder ls xs) x)" "order l = order x"
    by blast
  from l(1) have "order l \<in> order ` set (addOrder (foldl addOrder ls xs) x)" by (rule imageI)
  with l(2) have B: "order x \<in> order ` set (addOrder (foldl addOrder ls xs) x)" by simp
  from snoc.IH order_set_addOrder [of "foldl addOrder ls xs" x]
  have A: "order ` set ls \<subseteq> order ` set (addOrder (foldl addOrder ls xs) x)"
    and A': "order ` set xs \<subseteq> order ` set (addOrder (foldl addOrder ls xs) x)"
    by blast+
  show ?case by (simp add: A A' B)
qed

lemma foldl_addOrder_idem:
  "foldl addOrder (foldl addOrder ls ords) ords = foldl addOrder ls ords"
proof (induction ords rule: rev_induct)
  case Nil
  then show ?case by simp
next
  case (snoc x xs)
  let ?R = "foldl addOrder ls xs"
  from order_set_foldl_addOrder [of ls xs] have sub: "order ` set xs \<subseteq> order ` set ?R" by simp
  have "foldl addOrder (addOrder ?R x) xs = ?R \<or> foldl addOrder (addOrder ?R x) xs = addOrder ?R x"
  proof (cases "order x \<in> order ` set xs")
    case True
    from foldl_addOrder_absorb [OF True sub] snoc.IH show ?thesis by simp
  next
    case False
    from foldl_addOrder_commute [OF False sub] snoc.IH show ?thesis by simp
  qed
  then have "addOrder (foldl addOrder (addOrder ?R x) xs) x = addOrder ?R x"
    by (auto simp: addOrder_absorb)
  then show ?case by simp
qed

text \<open>
  C3: when \<open>generateBill\<close> has returned for a ledger entry, a second call for the same
  entry right after it returns the very same bill view (same bill id, same total,
  same flattened food and drink lists) and leaves the state as the first call left it.
\<close>

theorem generateBill_twice:
  assumes "generateBill s gd = (Inr gb, s')"
  shows "generateBill s' gd = (Inr gb, s')"
proof (cases "findIndex (\<lambda>b. bill_guest b = guest gd) (bills s)")
  case None
  let ?L = "foldl addOrder [] (orders gd)"
  from assms obtain t where t: "sumOrders (menu s) ?L 0 = Inr t"
    by (cases "sumOrders (menu s) ?L 0") (auto simp: generateBill_new [OF None])
  let ?nb = "\<lparr>bill = billIdCounter s, bill_guest = guest gd, bill_orders = ?L, totalSum = t\<rparr>"
  from assms t have s': "s' = s\<lparr>billIdCounter := billIdCounter s + 1, bills := bills s @ [?nb]\<rparr>"
    and gb: "gb = \<lparr>gb_bill = billIdCounter s, orderedDrinks = concat (map drinks ?L),
                   orderedFood = concat (map food ?L), gb_totalSum = t\<rparr>"
    by (auto simp: generateBill_new [OF None])
  from None have "findIndex (\<lambda>b. bill_guest b = guest gd) (bills s @ [?nb]) = Some (length (bills s))"
    by (rule findIndex_append_new) simp
  then have fi: "findIndex (\<lambda>b. bill_guest b = guest gd) (bills s') = Some (length (bills s))"
    by (simp add: s')
  have m: "menu s' = menu s" by (simp add: s')
  have L: "foldl addOrder (bill_orders (bills s' ! length (bills s))) (orders gd) = ?L"
    by (simp add: s' foldl_addOrder_idem)
  show ?thesis
    unfolding generateBill_existing [OF fi] L m t
    by (simp add: s' gb)
next
  case (Some i)
  then have i: "i < length (bills s)" by (simp add: findIndex_Some_iff)
  let ?L = "foldl addOrder (bill_orders (bills s ! i)) (orders gd)"
  from assms obtain t where t: "sumOrders (menu s) ?L 0 = Inr t"
    by (cases "sumOrders (menu s) ?L 0") (auto simp: generateBill_existing [OF Some])
  let ?nb = "\<lparr>bill = bill (bills s ! i), bill_guest = bill_guest (bills s ! i),
              bill_orders = ?L, totalSum = t\<rparr>"
  from assms t have s': "s' = s\<lparr>bills := (bills s)[i := ?nb]\<rparr>"
    and gb: "gb = \<lparr>gb_bill = bill (bills s ! i), orderedDrinks = concat (map drinks ?L),
                   orderedFood = concat (map food ?L), gb_totalSum = t\<rparr>"
    by (auto simp: generateBill_existing [OF Some])
  from Some have g: "bill_guest (bills s ! i) = guest gd" by (simp add: findIndex_Some_iff)
  from Some have "findIndex (\<lambda>b. bill_guest b = guest gd) ((bills s)[i := ?nb]) = Some i"
    by (rule findIndex_update) (simp add: g)
  then have fi: "findIndex (\<lambda>b. bill_guest b = guest gd) (bills s') = Some i"
    by (simp add: s')
  have m: "menu s' = menu s" by (simp add: s')
  from i have L: "foldl addOrder (bill_orders (bills s' ! i)) (orders gd) = ?L"
    by (simp add: s' foldl_addOrder_idem)
  show ?thesis
    unfolding generateBill_existing [OF fi] L m t
    using i by (simp add: s' gb)
qed

theorem generateBill_twice_witness:
  "generateBill scenario_delivered scenario_entry =
     (Inr \<lparr>gb_bill = 1, orderedDrinks = [201], orderedFood = [101, 102], gb_totalSum = 15\<rparr>,
      scenario_billed) \<and>
   generateBill scenario_billed scenario_entry =
     (Inr \<lparr>gb_bill = 1, orderedDrinks = [201], orderedFood = [101, 102], gb_totalSum = 15\<rparr>,
      scenario_billed)"
proof -
  have first: "generateBill scenario_delivered scenario_entry =
     (Inr \<lparr>gb_bill = 1, orderedDrinks = [201], orderedFood = [101, 102], gb_totalSum = 15\<rparr>,
      scenario_billed)"
    by (simp add: scenario_generateBill scenario_billed_eq)
  from generateBill_twice [OF first] first show ?thesis by simp
qed

section \<open>Settling a bill against the ledger\<close>

lemma splice1_Cons_Suc: "splice1 (Suc k) (x # xs) = x # splice1 k xs"
  by (simp add: splice1_def)

lemma removeItem_remove1: "removeItem items itemId = remove1 itemId items"
proof (induction items)
  case Nil
  then show ?case by (simp add: removeItem_def)
next
  case (Cons x xs)
  show ?case
  proof (cases "itemId = x")
    case True
    then show ?thesis by (simp add: removeItem_def splice1_def)
  next
    case False
    show ?thesis
    proof (cases "itemId \<in> set xs")
      case True
      then obtain k where k: "findIndex (\<lambda>item. itemId = item) xs = Some k"
        by (cases "findIndex (\<lambda>item. itemId = item) xs") (auto simp: findIndex_None_iff)
      with True Cons.IH have "splice1 k xs = remove1 itemId xs"
        by (simp add: removeItem_def)
      with False True k show ?thesis
        by (simp add: removeItem_def splice1_Cons_Suc)
    next
      case False
      with \<open>itemId \<noteq> x\<close> show ?thesis by (simp add: removeItem_def remove1_idem)
    qed
  qed
qed

lemma mset_foldl_removeItem: "mset (foldl removeItem items paid) = mset items - mset paid"
  by (induction paid arbitrary: items) (simp_all add: removeItem_remove1)

lemma removeBillItems_food:
  "mset (food (removeBillItems b ord)) = mset (food ord) - billedFood b (order ord)"
  by (simp add: removeBillItems_def billedFood_def mset_foldl_removeItem split: option.splits)

lemma removeBillItems_drinks:
  "mset (drinks (removeBillItems b ord)) = mset (drinks ord) - billedDrinks b (order ord)"
  by (simp add: removeBillItems_def billedDrinks_def mset_foldl_removeItem split: option.splits)

lemma findIndex_distinct:
  assumes "distinct (map f xs)" and "x \<in> set xs"
  shows "\<exists>i. findIndex (\<lambda>y. f y = f x) xs = Some i \<and> xs ! i = x"
proof -
  from assms(2) obtain i where i: "i < length xs" "xs ! i = x"
    by (auto simp: in_set_conv_nth)
  from assms(1) have d: "\<forall>j<length xs. \<forall>k<length xs. j \<noteq> k \<longrightarrow> f (xs ! j) \<noteq> f (xs ! k)"
    by (simp add: distinct_conv_nth)
  have "\<forall>j<i. f (xs ! j) \<noteq> f x"
  proof (intro allI impI)
    fix j assume "j < i"
    with i have "j < length xs" and "j \<noteq> i" by simp_all
    with d i show "f (xs ! j) \<noteq> f x" by blast
  qed
  with i have "findIndex (\<lambda>y. f y = f x) xs = Some i"
    by (simp add: findIndex_Some_iff)
  with i show ?thesis by blast
qed

text \<open>
  C1: let bill ids be unique, let \<open>b\<close> be an open bill and let the ledger hold an entry
  of \<open>b\<close>'s guest (the first one, at index \<open>gi\<close>). Then \<open>registerPayment\<close> with the id
  of \<open>b\<close> returns, and the order lines of that entry afterwards are the lines \<open>settled\<close>
  without those that have neither food nor drinks, where \<open>settled\<close> has, line by line,
  the order id of the line before the payment and, as multisets, its food ids minus
  the food ids that \<open>b\<close> holds for the order id and its drink ids minus the drink ids
  that \<open>b\<close> holds for the order id: one occurrence goes for each billed occurrence, so
  duplicates that were not billed stay. No line of the entry is left with both lists
  empty, and the other ledger entries are as before.
\<close>

theorem registerPayment_settles:
  assumes ids: "distinct (map bill (bills s))" and b: "b \<in> set (bills s)"
    and gi: "gi < length (guestOrders s) \<and> guest (guestOrders s ! gi) = bill_guest b \<and>
             (\<forall>j<gi. guest (guestOrders s ! j) \<noteq> bill_guest b)"
  shows "\<exists>paidBill s' settled.
           registerPayment s (bill b) = (Inr paidBill, s') \<and>
           length settled = length (orders (guestOrders s ! gi)) \<and>
           (\<forall>k<length settled.
              order (settled ! k) = order (orders (guestOrders s ! gi) ! k) \<and>
              mset (food (settled ! k)) =
                mset (food (orders (guestOrders s ! gi) ! k)) -
                billedFood b (order (orders (guestOrders s ! gi) ! k)) \<and>
              mset (drinks (settled ! k)) =
                mset (drinks (orders (guestOrders s ! gi) ! k)) -
                billedDrinks b (order (orders (guestOrders s ! gi) ! k))) \<and>
           orders (guestOrders s' ! gi) =
             filter (\<lambda>ord. food ord \<noteq> [] \<or> drinks ord \<noteq> []) settled \<and>
           (\<forall>ord\<in>set (orders (guestOrders s' ! gi)). food ord \<noteq> [] \<or> drinks ord \<noteq> []) \<and>
           guest (guestOrders s' ! gi) = guest (guestOrders s ! gi) \<and>
           length (guestOrders s') = length (guestOrders s) \<and>
           (\<forall>j<length (guestOrders s). j \<noteq> gi \<longrightarrow> guestOrders s' ! j = guestOrders s ! j)"
proof -
  from findIndex_distinct [OF ids b] obtain bi where
    bi: "findIndex (\<lambda>y. bill y = bill b) (bills s) = Some bi" and bb: "bills s ! bi = b"
    by blast
  from gi bb have g: "findIndex (\<lambda>items. guest items = bill_guest (bills s ! bi)) (guestOrders s) = Some gi"
    by (simp add: findIndex_Some_iff)
  let ?pre = "orders (guestOrders s ! gi)"
  let ?settled = "map (removeBillItems b) ?pre"
  let ?s' = "s\<lparr>guestOrders := (guestOrders s)[gi := (guestOrders s ! gi)\<lparr>orders :=
             filter (\<lambda>ord. food ord \<noteq> [] \<or> drinks ord \<noteq> []) ?settled\<rparr>],
          bills := splice1 bi (bills s)\<rparr>"
  from registerPayment_paid [OF bi g] bb
  have r: "snd (registerPayment s (bill b)) = ?s'"
    and ok: "\<exists>paidBill. fst (registerPayment s (bill b)) = Inr paidBill"
    by simp_all
  from ok obtain paidBill where pb: "registerPayment s (bill b) = (Inr paidBill, ?s')"
    using r by (metis prod.collapse)
  have lines: "\<forall>k<length ?settled.
              order (?settled ! k) = order (?pre ! k) \<and>
              mset (food (?settled ! k)) = mset (food (?pre ! k)) - billedFood b (order (?pre ! k)) \<and>
              mset (drinks (?settled ! k)) = mset (drinks (?pre ! k)) - billedDrinks b (order (?pre ! k))"
    by (simp add: order_removeBillItems removeBillItems_food removeBillItems_drinks)
  from gi have post: "orders (guestOrders ?s' ! gi) =
      filter (\<lambda>ord. food ord \<noteq> [] \<or> drinks ord \<noteq> []) ?settled"
    "guest (guestOrders ?s' ! gi) = guest (guestOrders s ! gi)"
    "length (guestOrders ?s') = length (guestOrders s)"
    "\<forall>j<length (guestOrders s). j \<noteq> gi \<longrightarrow> guestOrders ?s' ! j = guestOrders s ! j"
    by simp_all
  have pruned: "\<forall>ord\<in>set (orders (guestOrders ?s' ! gi)). food ord \<noteq> [] \<or> drinks ord \<noteq> []"
    unfolding post(1) by simp
  have len: "length ?settled = length ?pre" by simp
  from pb len lines post pruned show ?thesis by blast
qed

lemma scenario_redelivered_eq:
  "scenario_redelivered =
     \<lparr>deliveryIds = [], bills = [scenario_bill],
      guestOrders = [\<lparr>guest = 1, orders = [\<lparr>order = 1, food = [101, 102, 101], drinks = [201]\<rparr>,
                                          \<lparr>order = 2, food = [103], drinks = []\<rparr>]\<rparr>],
      menu = Some scenario_menu, billIdCounter = 2, retryCounter = 5,
      fibonacciSeq = [1, 1, 2, 3, 5]\<rparr>"
  by (simp add: scenario_redelivered_def scenario_billed_eq scenario_bill_def
      registerDeliveredItems_def Let_def)

lemma scenario_redelivered_payment:
  "registerPayment scenario_redelivered 1 =
     (Inr \<lparr>pb_bill = 1,
           paidOrders = [\<lparr>po_order = 1, paidDrinks = [201], paidFood = [101, 102]\<rparr>],
           pb_totalSum = 15\<rparr>,
      \<lparr>deliveryIds = [], bills = [],
       guestOrders = [\<lparr>guest = 1, orders = [\<lparr>order = 1, food = [101], drinks = []\<rparr>,
                                           \<lparr>order = 2, food = [103], drinks = []\<rparr>]\<rparr>],
       menu = Some scenario_menu, billIdCounter = 2, retryCounter = 5,
       fibonacciSeq = [1, 1, 2, 3, 5]\<rparr>)"
  by (simp add: scenario_redelivered_eq scenario_bill_def registerPayment_def
      removeBillItemsFromDeliveredItems_def removeBillItems_def removeItem_def splice1_def Let_def)

theorem registerPayment_settles_witness:
  "\<exists>paidBill s' settled.
     registerPayment scenario_redelivered (bill scenario_bill) = (Inr paidBill, s') \<and>
     length settled = length (orders (guestOrders scenario_redelivered ! 0)) \<and>
     (\<forall>k<length settled.
        order (settled ! k) = order (orders (guestOrders scenario_redelivered ! 0) ! k) \<and>
        mset (food (settled ! k)) =
          mset (food (orders (guestOrders scenario_redelivered ! 0) ! k)) -
          billedFood scenario_bill (order (orders (guestOrders scenario_redelivered ! 0) ! k)) \<and>
        mset (drinks (settled ! k)) =
          mset (drinks (orders (guestOrders scenario_redelivered ! 0) ! k)) -
          billedDrinks scenario_bill (order (orders (guestOrders scenario_redelivered ! 0) ! k))) \<and>
     orders (guestOrders s' ! 0) =
       filter (\<lambda>ord. food ord \<noteq> [] \<or> drinks ord \<noteq> []) settled \<and>
     (\<forall>ord\<in>set (orders (guestOrders s' ! 0)). food ord \<noteq> [] \<or> drinks ord \<noteq> []) \<and>
     guest (guestOrders s' ! 0) = guest (guestOrders scenario_redelivered ! 0) \<and>
     length (guestOrders s') = length (guestOrders scenario_redelivered) \<and>
     (\<forall>j<length (guestOrders scenario_redelivered). j \<noteq> 0 \<longrightarrow>
        guestOrders s' ! j = guestOrders scenario_redelivered ! j)"
proof (rule registerPayment_settles)
  show "distinct (map bill (bills scenario_redelivered))"
    by (simp add: scenario_redelivered_eq)
  show "scenario_bill \<in> set (bills scenario_redelivered)"
    by (simp add: scenario_redelivered_eq)
  show "0 < length (guestOrders scenario_redelivered) \<and>
        guest (guestOrders scenario_redelivered ! 0) = bill_guest scenario_bill \<and>
        (\<forall>j<0. guest (guestOrders scenario_redelivered ! j) \<noteq> bill_guest scenario_bill)"
    by (simp add: scenario_redelivered_eq scenario_bill_def)
qed

section \<open>Bill ids stay unique\<close>

lemma set_splice1: "set (splice1 i xs) \<subseteq> set xs"
  by (auto simp: splice1_def dest: in_set_takeD in_set_dropD)

lemma billIdsFresh_new: "billIdsFresh BillingService_new"
  by (simp add: billIdsFresh_def BillingService_new_def)

lemma billIdsFresh_registerDeliveredItems:
  "billIdsFresh s \<Longrightarrow> billIdsFresh (registerDeliveredItems s r)"
  by (simp add: billIdsFresh_def registerDeliveredItems_def Let_def split: option.splits)

lemma billIdsFresh_generateBill:
  assumes "billIdsFresh s"
  shows "billIdsFresh (snd (generateBill s gd))"
proof (cases "findIndex (\<lambda>b. bill_guest b = guest gd) (bills s)")
  case None
  from assms have "billIdCounter s \<notin> bill ` set (bills s)"
    by (auto simp: billIdsFresh_def list_all_iff)
  moreover from assms have "list_all (\<lambda>b. bill b < billIdCounter s + 1) (bills s)"
    by (auto simp: billIdsFresh_def list_all_iff)
  ultimately show ?thesis using assms
    by (simp add: generateBill_new [OF None] billIdsFresh_def split: sum.splits)
next
  case (Some i)
  then have i: "i < length (bills s)" by (simp add: findIndex_Some_iff)
  with assms have "bill (bills s ! i) < billIdCounter s"
    by (simp add: billIdsFresh_def list_all_length)
  with assms i show ?thesis
    by (simp add: generateBill_existing [OF Some] billIdsFresh_def map_update_same
        list_all_update split: sum.splits)
qed

lemma billIdsFresh_registerPayment:
  assumes "billIdsFresh s"
  shows "billIdsFresh (snd (registerPayment s billId))"
proof (cases "findIndex (\<lambda>b. bill b = billId) (bills s)")
  case None
  with assms show ?thesis by (simp add: registerPayment_no_bill)
next
  case (Some bi)
  show ?thesis
  proof (cases "findIndex (\<lambda>items. guest items = bill_guest (bills s ! bi)) (guestOrders s)")
    case None
    with assms Some show ?thesis by (simp add: registerPayment_no_guest)
  next
    case (Some gi)
    from assms set_splice1 [of bi "bills s"]
    have "list_all (\<lambda>b. bill b < billIdCounter s) (splice1 bi (bills s))"
      by (auto simp: billIdsFresh_def list_all_iff)
    with assms show ?thesis
      by (simp add: registerPayment_paid [OF \<open>findIndex (\<lambda>b. bill b = billId) (bills s) = Some bi\<close> Some]
          billIdsFresh_def distinct_map_splice1)
  qed
qed

end
